theory Spec2Isabelle
  imports Main "HOL-Library.Sublist" "HOL-Library.Multiset" "HOL-Library.AList"
begin

section \<open>JavaScript strings\<close>

text \<open>
  A JavaScript string is the list of its code units; a \<^typ>\<open>char\<close> stands for one
  code unit (the model has the code units below 256). \<open>length\<close> is the
  \<^verbatim>\<open>.length\<close> property.
\<close>

definition startsWith :: "string \<Rightarrow> string \<Rightarrow> bool" where
  "startsWith s p = (take (length p) s = p)"

fun str_includes :: "string \<Rightarrow> string \<Rightarrow> bool" where
  "str_includes [] p = (p = [])"
| "str_includes (c # s) p = (startsWith (c # s) p \<or> str_includes s p)"

text \<open>White space and line terminators of ECMAScript, as \<^verbatim>\<open>trim\<close> strips them.\<close>

definition isWhiteSpace :: "char \<Rightarrow> bool" where
  "isWhiteSpace c = ((of_char c :: nat) \<in> {9, 10, 11, 12, 13, 32, 160})"

definition trim :: "string \<Rightarrow> string" where
  "trim s = rev (dropWhile isWhiteSpace (rev (dropWhile isWhiteSpace s)))"

definition toLowerCase_unit :: "char \<Rightarrow> char" where
  "toLowerCase_unit c =
     (let n = (of_char c :: nat)
      in if (65 \<le> n \<and> n \<le> 90) \<or> (192 \<le> n \<and> n \<le> 222 \<and> n \<noteq> 215)
         then char_of (n + 32) else c)"

definition toLowerCase :: "string \<Rightarrow> string" where
  "toLowerCase s = map toLowerCase_unit s"

text \<open>
  ASCII upper-casing, as the DOM applies it to the tag name of an HTML element, and
  ASCII lower-casing, as a quirks-mode document compares class names.
\<close>

definition ascii_lower :: "char \<Rightarrow> char" where
  "ascii_lower c =
     (let n = (of_char c :: nat)
      in if 65 \<le> n \<and> n \<le> 90 then char_of (n + 32) else c)"

definition ascii_upper :: "char \<Rightarrow> char" where
  "ascii_upper c =
     (let n = (of_char c :: nat)
      in if 97 \<le> n \<and> n \<le> 122 then char_of (n - 32) else c)"

text \<open>\<^verbatim>\<open>s.split(sep)\<close> for a separator of one code unit.\<close>

fun split :: "string \<Rightarrow> char \<Rightarrow> string list" where
  "split [] sep = [[]]"
| "split (c # s) sep =
     (if c = sep then [] # split s sep
      else (case split s sep of [] \<Rightarrow> [[c]] | x # xs \<Rightarrow> (c # x) # xs))"

text \<open>\<^verbatim>\<open>s.replace(pat, rep)\<close> for a string pattern: the first occurrence only.\<close>

fun replace :: "string \<Rightarrow> string \<Rightarrow> string \<Rightarrow> string" where
  "replace [] pat rep = (if pat = [] then rep else [])"
| "replace (c # s) pat rep =
     (if startsWith (c # s) pat then rep @ drop (length pat) (c # s)
      else c # replace s pat rep)"

text \<open>The decimal numeral of a count, as a template literal prints it.\<close>

fun String :: "nat \<Rightarrow> string" where
  "String n =
     (if n < 10 then [char_of (48 + n)]
      else String (n div 10) @ [char_of (48 + n mod 10)])"

declare String.simps [simp del]

text \<open>
  \<^verbatim>\<open>parseInt\<close>, as far as the analyzer uses it: the source applies it to the tag
  name of a heading without its first letter, a digit from 1 to 6. The model skips
  leading white space and reads the run of decimal digits that follows; \<open>None\<close> is
  NaN. (A sign or a \<open>0x\<close> prefix, which \<^verbatim>\<open>parseInt\<close> also reads, does not occur
  there.)
\<close>

definition isDigit :: "char \<Rightarrow> bool" where
  "isDigit c = (48 \<le> (of_char c :: nat) \<and> (of_char c :: nat) \<le> 57)"

definition parseInt :: "string \<Rightarrow> nat option" where
  "parseInt s =
     (let ds = takeWhile isDigit (dropWhile isWhiteSpace s)
      in if ds = [] then None
         else Some (foldl (\<lambda>a c. 10 * a + (of_char c - 48)) 0 ds))"

section \<open>The document tree and its queries\<close>

text \<open>
  The analyzers see the markup through the tree the parser builds and through the
  selector queries, attribute reads, text content and containment test of the DOM.
  The tree is the input of the model: an element has its local name (in lower case
  for an HTML element), its attributes in source order and its children; a text node
  has its data. Comments carry nothing the analyzers read and are left out. With the
  tree comes the mode the parser gave the document: a page without a doctype is in
  quirks mode, where class selectors match without regard to ASCII case.
\<close>

datatype node =
    Element (localName: string) (attributes: "(string \<times> string) list") (childNodes: "node list")
  | Text (data: string)
where
  "localName (Text s) = []"
| "attributes (Text s) = []"
| "childNodes (Text s) = []"
| "data (Element n as cs) = []"

text \<open>
  Two elements of one document are the same object when they stand at the same place:
  an element is known by the path of child indices that leads to it.
\<close>

type_synonym path = "nat list"
type_synonym element = "path \<times> node"

datatype document = Document (quirksMode: bool) (childNodes_of: "node list")

fun descendants :: "path \<Rightarrow> node \<Rightarrow> element list"
  and descendants_list :: "path \<Rightarrow> nat \<Rightarrow> node list \<Rightarrow> element list" where
  "descendants p (Text s) = []"
| "descendants p (Element n as cs) = (p, Element n as cs) # descendants_list p 0 cs"
| "descendants_list p i [] = []"
| "descendants_list p i (c # cs) = descendants (p @ [i]) c @ descendants_list p (Suc i) cs"

text \<open>Every element of the document, in document order.\<close>

definition all_elements :: "document \<Rightarrow> element list" where
  "all_elements doc = descendants_list [] 0 (childNodes_of doc)"

fun textContent_node :: "node \<Rightarrow> string" where
  "textContent_node (Text s) = s"
| "textContent_node (Element n as cs) = concat (map textContent_node cs)"

definition textContent :: "element \<Rightarrow> string" where
  "textContent e = textContent_node (snd e)"

definition getAttribute :: "element \<Rightarrow> string \<Rightarrow> string option" where
  "getAttribute e a = map_of (attributes (snd e)) a"

definition hasAttribute :: "element \<Rightarrow> string \<Rightarrow> bool" where
  "hasAttribute e a = (getAttribute e a \<noteq> None)"

definition tagName :: "element \<Rightarrow> string" where
  "tagName e = map ascii_upper (localName (snd e))"

text \<open>\<^verbatim>\<open>a.contains(b)\<close>: \<open>b\<close> is \<open>a\<close> or a descendant of \<open>a\<close>.\<close>

definition contains :: "element \<Rightarrow> element \<Rightarrow> bool" where
  "contains a b = prefix (fst a) (fst b)"

text \<open>\<^verbatim>\<open>element.id\<close> and \<^verbatim>\<open>element.classList\<close> (an ordered set of tokens).\<close>

definition element_id :: "element \<Rightarrow> string" where
  "element_id e = (case getAttribute e ''id'' of None \<Rightarrow> [] | Some v \<Rightarrow> v)"

definition isAsciiWhitespace :: "char \<Rightarrow> bool" where
  "isAsciiWhitespace c = ((of_char c :: nat) \<in> {9, 10, 12, 13, 32})"

fun tokens :: "string \<Rightarrow> string \<Rightarrow> string list" where
  "tokens acc [] = (if acc = [] then [] else [acc])"
| "tokens acc (c # s) =
     (if isAsciiWhitespace c then (if acc = [] then tokens [] s else acc # tokens [] s)
      else tokens (acc @ [c]) s)"

definition classList :: "element \<Rightarrow> string list" where
  "classList e =
     (case getAttribute e ''class'' of None \<Rightarrow> []
      | Some v \<Rightarrow> rev (remdups (rev (tokens [] v))))"

text \<open>
  The selectors the analyzers use: a selector is a comma list of compound selectors,
  a compound selector a conjunction of simple ones. Attribute values are compared
  as they are written, but for the value of \<^verbatim>\<open>type\<close>, which HTML compares
  without regard to case. Class names are compared as they are written in a
  no-quirks document and without regard to ASCII case in a quirks-mode document
  (the first argument of \<open>matches\<close>). \<^verbatim>\<open>[a^=""]\<close> matches nothing.
\<close>

datatype simple_selector =
    Type string
  | Attr string
  | AttrEquals string string
  | AttrPrefix string string
  | Class string
  | Not simple_selector

type_synonym selector = "simple_selector list list"

definition has_class :: "bool \<Rightarrow> element \<Rightarrow> string \<Rightarrow> bool" where
  "has_class quirks e c =
     (if quirks then map ascii_lower c \<in> set (map (map ascii_lower) (classList e))
      else c \<in> set (classList e))"

fun matches_simple :: "bool \<Rightarrow> element \<Rightarrow> simple_selector \<Rightarrow> bool" where
  "matches_simple q e (Type t) = (localName (snd e) = t)"
| "matches_simple q e (Attr a) = hasAttribute e a"
| "matches_simple q e (AttrEquals a v) =
     (case getAttribute e a of None \<Rightarrow> False
      | Some x \<Rightarrow> if a = ''type'' then toLowerCase x = toLowerCase v else x = v)"
| "matches_simple q e (AttrPrefix a v) =
     (case getAttribute e a of None \<Rightarrow> False | Some x \<Rightarrow> v \<noteq> [] \<and> startsWith x v)"
| "matches_simple q e (Class c) = has_class q e c"
| "matches_simple q e (Not s) = (\<not> matches_simple q e s)"

definition matches :: "bool \<Rightarrow> element \<Rightarrow> selector \<Rightarrow> bool" where
  "matches q e sel = list_ex (list_all (matches_simple q e)) sel"

definition querySelectorAll :: "document \<Rightarrow> selector \<Rightarrow> element list" where
  "querySelectorAll doc sel = filter (\<lambda>e. matches (quirksMode doc) e sel) (all_elements doc)"

definition querySelector :: "document \<Rightarrow> selector \<Rightarrow> element option" where
  "querySelector doc sel =
     (case querySelectorAll doc sel of [] \<Rightarrow> None | e # es \<Rightarrow> Some e)"

section \<open>The platform's URL parser\<close>

text \<open>
  \<^verbatim>\<open>new URL(url).hostname\<close> is the platform's: the analyzers are given it as the
  function \<open>hostname_of\<close>, which yields \<open>None\<close> where the constructor throws its
  TypeError (a string that is no absolute URL) and the host name otherwise.
\<close>

type_synonym url_parser = "string \<Rightarrow> string option"

datatype error = TypeError_Invalid_URL

text \<open>
  One such parser, for the examples below: the properties are proved for every
  \<open>hostname_of\<close>. It follows the URL standard on the two shapes the examples use.
  A string with no scheme (a letter, then letters, digits, \<open>+\<close>, \<open>-\<close> or \<open>.\<close>,
  then a colon) is rejected, since the constructor is given no base URL; and
  \<^verbatim>\<open>http://host/...\<close> or \<^verbatim>\<open>https://host/...\<close> with a lower-case host name of
  letters, digits, \<open>-\<close> and \<open>.\<close>, with or without a port, has that host name.
  Every other string is rejected here, which the standard does not say.
\<close>

definition isAlpha :: "char \<Rightarrow> bool" where
  "isAlpha c =
     (let n = (of_char c :: nat) in (65 \<le> n \<and> n \<le> 90) \<or> (97 \<le> n \<and> n \<le> 122))"

definition isSchemeChar :: "char \<Rightarrow> bool" where
  "isSchemeChar c = (isAlpha c \<or> isDigit c \<or> c \<in> {CHR ''+'', CHR ''-'', CHR ''.''})"

definition has_scheme :: "string \<Rightarrow> bool" where
  "has_scheme s =
     (case s of [] \<Rightarrow> False
      | c # cs \<Rightarrow> isAlpha c \<and> (case dropWhile isSchemeChar cs of [] \<Rightarrow> False | d # ds \<Rightarrow> d = CHR '':''))"

definition isHostChar :: "char \<Rightarrow> bool" where
  "isHostChar c =
     ((97 \<le> (of_char c :: nat) \<and> (of_char c :: nat) \<le> 122) \<or> isDigit c
      \<or> c \<in> {CHR ''-'', CHR ''.''})"

definition digits_value :: "string \<Rightarrow> nat" where
  "digits_value ds = foldl (\<lambda>a c. 10 * a + (of_char c - 48)) 0 ds"

definition skip_port :: "string \<Rightarrow> string option" where
  "skip_port t =
     (case t of
        [] \<Rightarrow> Some []
      | c # ds \<Rightarrow>
          if c = CHR '':'' then
            (if digits_value (takeWhile isDigit ds) \<le> 65535 then Some (dropWhile isDigit ds) else None)
          else Some t)"

definition simple_hostname :: url_parser where
  "simple_hostname s =
     (if \<not> has_scheme s then None
      else let rest = (if startsWith s ''http://'' then Some (drop 7 s)
                       else if startsWith s ''https://'' then Some (drop 8 s) else None)
           in case rest of None \<Rightarrow> None
              | Some r \<Rightarrow>
                  let h = takeWhile isHostChar r
                  in case skip_port (dropWhile isHostChar r) of
                       None \<Rightarrow> None
                     | Some t \<Rightarrow>
                         if h \<noteq> [] \<and> isAlpha (hd h) \<and> isAlpha (last h)
                            \<and> (t = [] \<or> hd t \<in> {CHR ''/'', CHR ''?'', CHR ''#''})
                         then Some h else None)"

section \<open>The document analyzer (html-analyzer.ts)\<close>

datatype severity = high | medium | low

text \<open>
  The remediation texts (\<open>howToFix\<close>, and \<open>recommendation\<close> of the element
  analyzer) are constants of the source. Two of them hold the arrow U+2192, a code
  unit above those a \<^typ>\<open>char\<close> stands for, so these texts are kept as lists of
  code unit values; \<open>units\<close> gives the code units of an ASCII text.
\<close>

definition units :: "string \<Rightarrow> nat list" where
  "units s = map of_char s"

record Issue =
  issue_id :: nat
  severity :: severity
  issue_title :: string
  issue_description :: string
  howToFix :: "nat list"

record Headings =
  h1 :: nat
  h2 :: nat
  h3 :: nat
  h4 :: nat
  h5 :: nat
  h6 :: nat
  heading_structure :: "string list"

record Images =
  images_total :: nat
  withAlt :: nat
  withoutAlt :: int
  withEmptyAlt :: nat

record Links =
  links_total :: nat
  internal :: nat
  external :: nat

record HtmlAnalysisResult =
  title :: string
  description :: string
  page_keywords :: "string list"
  ogTags :: "(string \<times> string) list"
  issues :: "Issue list"
  headings :: Headings
  images :: Images
  links :: Links

text \<open>
  The selectors of the document analyzer: \<^verbatim>\<open>t\<close> for a tag name,
  \<^verbatim>\<open>meta[name="n"]\<close>, \<^verbatim>\<open>meta[property^="og:"]\<close>, \<^verbatim>\<open>h1, h2, h3, h4, h5, h6\<close>,
  \<^verbatim>\<open>img[alt]:not([alt=""])\<close>, \<^verbatim>\<open>img[alt=""]\<close>, \<^verbatim>\<open>a[href]\<close>,
  \<^verbatim>\<open>script[type="application/ld+json"]\<close> and \<^verbatim>\<open>[itemscope], [itemprop]\<close>.
\<close>

definition sel_tag :: "string \<Rightarrow> selector" where
  "sel_tag t = [[Type t]]"

definition sel_meta_name :: "string \<Rightarrow> selector" where
  "sel_meta_name n = [[Type ''meta'', AttrEquals ''name'' n]]"

definition sel_og :: selector where
  "sel_og = [[Type ''meta'', AttrPrefix ''property'' ''og:'']]"

definition sel_headings :: selector where
  "sel_headings = [[Type ''h1''], [Type ''h2''], [Type ''h3''], [Type ''h4''], [Type ''h5''], [Type ''h6'']]"

definition sel_img_with_alt :: selector where
  "sel_img_with_alt = [[Type ''img'', Attr ''alt'', Not (AttrEquals ''alt'' [])]]"

definition sel_img_empty_alt :: selector where
  "sel_img_empty_alt = [[Type ''img'', AttrEquals ''alt'' []]]"

definition sel_a_href :: selector where
  "sel_a_href = [[Type ''a'', Attr ''href'']]"

definition sel_ld_json :: selector where
  "sel_ld_json = [[Type ''script'', AttrEquals ''type'' ''application/ld+json'']]"

definition sel_microdata :: selector where
  "sel_microdata = [[Attr ''itemscope''], [Attr ''itemprop'']]"

text \<open>\<^verbatim>\<open>x?.getAttribute('content') || ''\<close> on the first match of a selector.\<close>

definition content_of :: "document \<Rightarrow> selector \<Rightarrow> string" where
  "content_of doc sel =
     (case querySelector doc sel of None \<Rightarrow> []
      | Some e \<Rightarrow> (case getAttribute e ''content'' of None \<Rightarrow> [] | Some v \<Rightarrow> v))"

definition extract_title :: "document \<Rightarrow> string" where
  "extract_title doc =
     (case querySelector doc (sel_tag ''title'') of None \<Rightarrow> [] | Some e \<Rightarrow> textContent e)"

definition extract_keywords :: "document \<Rightarrow> string list" where
  "extract_keywords doc =
     filter (\<lambda>k. k \<noteq> []) (map trim (split (content_of doc (sel_meta_name ''keywords'')) CHR '',''))"

text \<open>
  The Open Graph tags are a plain object used as a dictionary. The model keeps its
  own properties in the order in which JavaScript lists them: the integer-like keys
  (array indices) first, in ascending order, then the other keys in the order in
  which they were first set. An assignment of a string to the key \<^verbatim>\<open>__proto__\<close>
  stores nothing.
\<close>

definition isArrayIndex :: "string \<Rightarrow> bool" where
  "isArrayIndex k =
     (k \<noteq> [] \<and> list_all isDigit k \<and> (k = ''0'' \<or> hd k \<noteq> CHR ''0'')
      \<and> digits_value k < 4294967295)"

fun insert_index :: "string \<Rightarrow> string \<Rightarrow> (string \<times> string) list \<Rightarrow> (string \<times> string) list" where
  "insert_index k v [] = [(k, v)]"
| "insert_index k v (kv # rest) =
     (if isArrayIndex (fst kv) \<and> digits_value (fst kv) < digits_value k
      then kv # insert_index k v rest
      else (k, v) # kv # rest)"

definition object_set :: "string \<Rightarrow> string \<Rightarrow> (string \<times> string) list \<Rightarrow> (string \<times> string) list" where
  "object_set k v obj =
     (if k = ''__proto__'' then obj
      else if map_of obj k \<noteq> None then AList.update k v obj
      else if isArrayIndex k then insert_index k v obj
      else obj @ [(k, v)])"

definition og_step :: "(string \<times> string) list \<Rightarrow> element \<Rightarrow> (string \<times> string) list" where
  "og_step tags tag =
     (case (getAttribute tag ''property'', getAttribute tag ''content'') of
        (Some property, Some content) \<Rightarrow>
          if property \<noteq> [] \<and> content \<noteq> []
          then object_set (replace property ''og:'' []) content tags else tags
      | _ \<Rightarrow> tags)"

definition extract_ogTags :: "document \<Rightarrow> (string \<times> string) list" where
  "extract_ogTags doc = foldl og_step [] (querySelectorAll doc sel_og)"

definition heading_entry :: "element \<Rightarrow> string" where
  "heading_entry heading =
     tagName heading @ '': '' @
       (let t = trim (textContent heading) in if t = [] then ''Empty heading'' else t)"

definition extract_headings :: "document \<Rightarrow> Headings" where
  "extract_headings doc =
     \<lparr> h1 = length (querySelectorAll doc (sel_tag ''h1'')),
       h2 = length (querySelectorAll doc (sel_tag ''h2'')),
       h3 = length (querySelectorAll doc (sel_tag ''h3'')),
       h4 = length (querySelectorAll doc (sel_tag ''h4'')),
       h5 = length (querySelectorAll doc (sel_tag ''h5'')),
       h6 = length (querySelectorAll doc (sel_tag ''h6'')),
       heading_structure = map heading_entry (querySelectorAll doc sel_headings) \<rparr>"

definition extract_images :: "document \<Rightarrow> Images" where
  "extract_images doc =
     (let allImages = querySelectorAll doc (sel_tag ''img'');
          imagesWithAlt = querySelectorAll doc sel_img_with_alt;
          imagesWithEmptyAlt = querySelectorAll doc sel_img_empty_alt
      in \<lparr> images_total = length allImages,
           withAlt = length imagesWithAlt,
           withoutAlt = int (length allImages) - int (length imagesWithAlt)
                          - int (length imagesWithEmptyAlt),
           withEmptyAlt = length imagesWithEmptyAlt \<rparr>)"

text \<open>
  The link loop. The host name of the reference URL is asked for only when the
  \<open>href\<close> starts with neither \<open>#\<close> nor \<open>/\<close> and the URL string is not empty; a
  TypeError of the constructor leaves the loop and the analyzer.
\<close>

datatype link_class = Internal | External | Neither

definition href_of :: "element \<Rightarrow> string" where
  "href_of link = (case getAttribute link ''href'' of None \<Rightarrow> [] | Some v \<Rightarrow> v)"

definition classify_link :: "url_parser \<Rightarrow> string \<Rightarrow> string \<Rightarrow> error + link_class" where
  "classify_link hostname_of url href =
     (if startsWith href ''#'' \<or> startsWith href ''/'' then Inr Internal
      else if url = [] then (if startsWith href ''http'' then Inr External else Inr Neither)
      else (case hostname_of url of
              None \<Rightarrow> Inl TypeError_Invalid_URL
            | Some hostname \<Rightarrow>
                if str_includes href hostname then Inr Internal
                else if startsWith href ''http'' then Inr External
                else Inr Neither))"

fun count_links :: "url_parser \<Rightarrow> string \<Rightarrow> element list \<Rightarrow> nat \<times> nat \<Rightarrow> error + nat \<times> nat" where
  "count_links hostname_of url [] (internalLinks, externalLinks) = Inr (internalLinks, externalLinks)"
| "count_links hostname_of url (link # rest) (internalLinks, externalLinks) =
     (case classify_link hostname_of url (href_of link) of
        Inl e \<Rightarrow> Inl e
      | Inr Internal \<Rightarrow> count_links hostname_of url rest (internalLinks + 1, externalLinks)
      | Inr External \<Rightarrow> count_links hostname_of url rest (internalLinks, externalLinks + 1)
      | Inr Neither \<Rightarrow> count_links hostname_of url rest (internalLinks, externalLinks))"

text \<open>
  The checks. The analyzer keeps the issue list and the counter \<open>id\<close>, which starts
  at 1; \<open>push\<close> is \<^verbatim>\<open>issues.push({id: id++, ...})\<close>.
\<close>

type_synonym issue_state = "Issue list \<times> nat"

definition push :: "severity \<Rightarrow> string \<Rightarrow> string \<Rightarrow> nat list \<Rightarrow> issue_state \<Rightarrow> issue_state" where
  "push sev t d f st =
     (case st of (pushed, next_id) \<Rightarrow>
        (pushed @ [\<lparr> issue_id = next_id, severity = sev, issue_title = t,
                     issue_description = d, howToFix = f \<rparr>], next_id + 1))"

definition check_title :: "string \<Rightarrow> issue_state \<Rightarrow> issue_state" where
  "check_title title_text st =
     (if title_text = [] then
        push high ''Missing page title''
          ''Your page is missing a title tag, which is critical for SEO.''
          (units ''Add a descriptive title tag within the <head> section of your HTML.'') st
      else if length title_text < 10 then
        push medium ''Title too short''
          (''Your title tag is only '' @ String (length title_text)
             @ '' characters long, which may not be descriptive enough.'')
          (units ''Create a more descriptive title between 50-60 characters that includes key terms.'') st
      else if length title_text > 60 then
        push low ''Title too long''
          (''Your title tag is '' @ String (length title_text)
             @ '' characters long, which may be truncated in search results.'')
          (units ''Keep your title under 60 characters while maintaining key information.'') st
      else st)"

definition check_metaDescription :: "string \<Rightarrow> issue_state \<Rightarrow> issue_state" where
  "check_metaDescription metaDescription st =
     (if metaDescription = [] then
        push high ''Missing meta description''
          ''Your page is missing a meta description, which is important for SEO and click-through rates in search results.''
          (units ''Add a meta description tag with a compelling summary of your page (around 150-160 characters).'') st
      else if length metaDescription < 50 then
        push medium ''Meta description too short''
          (''Your meta description is only '' @ String (length metaDescription)
             @ '' characters long, which may not adequately describe your page.'')
          (units ''Write a more descriptive meta description between 120-158 characters.'') st
      else if length metaDescription > 160 then
        push low ''Meta description too long''
          (''Your meta description is '' @ String (length metaDescription)
             @ '' characters long and may be truncated in search results.'')
          (units ''Keep your meta description under 158 characters while maintaining key information.'') st
      else st)"

definition check_h1 :: "nat \<Rightarrow> issue_state \<Rightarrow> issue_state" where
  "check_h1 h1_count st =
     (if h1_count = 0 then
        push high ''Missing H1 heading''
          ''Your page does not have an H1 heading, which is important for page structure and SEO.''
          (units ''Add a descriptive H1 heading that contains your primary keyword.'') st
      else if h1_count > 1 then
        push medium ''Multiple H1 headings''
          (''Your page has '' @ String h1_count
             @ '' H1 headings. It's generally best to have a single H1.'')
          (units ''Use only one H1 heading as the main title of your page and use H2-H6 for subheadings.'') st
      else st)"

definition check_h2_without_h1 :: "nat \<Rightarrow> nat \<Rightarrow> issue_state \<Rightarrow> issue_state" where
  "check_h2_without_h1 h1_count h2_count st =
     (if h1_count = 0 \<and> h2_count > 0 then
        push medium ''H2 without H1''
          ''Your page uses H2 headings without an H1 heading.''
          (units ''Add an H1 heading as the main title of your page before using H2 headings.'') st
      else st)"

definition check_h3_without_h2 :: "nat \<Rightarrow> nat \<Rightarrow> issue_state \<Rightarrow> issue_state" where
  "check_h3_without_h2 h2_count h3_count st =
     (if h2_count = 0 \<and> h3_count > 0 then
        push low ''H3 without H2''
          ''Your page uses H3 headings without H2 headings, which creates a gap in the heading hierarchy.''
          (units ''Maintain proper heading hierarchy (H1 '' @ [8594] @ units '' H2 '' @ [8594]
             @ units '' H3) to improve page structure.'') st
      else st)"

definition check_images :: "Images \<Rightarrow> issue_state \<Rightarrow> issue_state" where
  "check_images imgs st =
     (if images_total imgs > 0 \<and> withoutAlt imgs > 0 then
        push medium ''Images missing alt text''
          (String (nat (withoutAlt imgs)) @ '' out of '' @ String (images_total imgs)
             @ '' images are missing alt text, which is important for accessibility and SEO.'')
          (units ''Add descriptive alt attributes to all images that describe the content and function of the image.'') st
      else st)"

definition linksWithoutText :: "element list \<Rightarrow> nat" where
  "linksWithoutText allLinks = length (filter (\<lambda>link. trim (textContent link) = []) allLinks)"

definition check_links :: "nat \<Rightarrow> issue_state \<Rightarrow> issue_state" where
  "check_links n st =
     (if n > 0 then
        push medium ''Links without text''
          (String n @ '' links on your page have no text content, which is bad for accessibility and SEO.'')
          (units ''Add descriptive text to all links to help users and search engines understand their purpose.'') st
      else st)"

definition check_viewport :: "bool \<Rightarrow> issue_state \<Rightarrow> issue_state" where
  \<open>check_viewport has_viewport st =
     (if \<not> has_viewport then
        push high ''Missing viewport meta tag''
          ''Your page is missing the viewport meta tag, which is essential for mobile responsiveness.''
          (units ''Add <meta name="viewport" content="width=device-width, initial-scale=1"> to the <head> section.'') st
      else st)\<close>

definition hasStructuredData :: "document \<Rightarrow> bool" where
  "hasStructuredData doc =
     (querySelector doc sel_ld_json \<noteq> None \<or> length (querySelectorAll doc sel_microdata) > 0)"

definition check_structured_data :: "bool \<Rightarrow> issue_state \<Rightarrow> issue_state" where
  "check_structured_data has_data st =
     (if \<not> has_data then
        push medium ''Missing structured data''
          ''Your page does not appear to use structured data (schema.org) markup.''
          (units ''Implement relevant schema.org markup to enhance your search engine listings with rich results.'') st
      else st)"

text \<open>The nine checks, in the order of the source, from the empty list and \<open>id = 1\<close>.\<close>

definition run_checks :: "document \<Rightarrow> issue_state" where
  "run_checks doc =
     (let hs = extract_headings doc;
          st0 = ([], 1);
          st1 = check_title (extract_title doc) st0;
          st2 = check_metaDescription (content_of doc (sel_meta_name ''description'')) st1;
          st3 = check_h1 (h1 hs) st2;
          st4 = check_h2_without_h1 (h1 hs) (h2 hs) st3;
          st5 = check_h3_without_h2 (h2 hs) (h3 hs) st4;
          st6 = check_images (extract_images doc) st5;
          st7 = check_links (linksWithoutText (querySelectorAll doc sel_a_href)) st6;
          st8 = check_viewport (querySelector doc (sel_meta_name ''viewport'') \<noteq> None) st7;
          st9 = check_structured_data (hasStructuredData doc) st8
      in st9)"

definition analyzeHtmlContent :: "url_parser \<Rightarrow> document \<Rightarrow> string \<Rightarrow> error + HtmlAnalysisResult" where
  "analyzeHtmlContent hostname_of doc url =
     (let allLinks = querySelectorAll doc sel_a_href
      in case count_links hostname_of url allLinks (0, 0) of
           Inl e \<Rightarrow> Inl e
         | Inr (internalLinks, externalLinks) \<Rightarrow>
             Inr \<lparr> title = extract_title doc,
                   description = content_of doc (sel_meta_name ''description''),
                   page_keywords = extract_keywords doc,
                   ogTags = extract_ogTags doc,
                   issues = fst (run_checks doc),
                   headings = extract_headings doc,
                   images = extract_images doc,
                   links = \<lparr> links_total = length allLinks, internal = internalLinks,
                             external = externalLinks \<rparr> \<rparr>)"

text \<open>\<^verbatim>\<open>isValidHtml\<close>: the four literal substrings.\<close>

definition isValidHtml :: "string \<Rightarrow> bool" where
  "isValidHtml content =
     (str_includes content ''<html'' \<and> str_includes content ''<head''
      \<and> str_includes content ''<body'' \<and> str_includes content ''</html>'')"

section \<open>The element analyzer (element-analysis.ts)\<close>

record ElementIssue =
  selector :: string
  element :: string
  issue :: string
  issue_severity :: severity
  recommendation :: "nat list"
  issue_section :: string

record SectionAnalysis =
  name :: string
  score :: int
  section_issues :: "ElementIssue list"
  importance :: nat

record ElementAnalysisResult =
  url :: string
  totalElements :: nat
  analyzedElements :: nat
  elementIssues :: "ElementIssue list"
  sectionAnalysis :: "SectionAnalysis list"

text \<open>
  The regions of the page: \<^verbatim>\<open>sections\<close> maps the five names, in the order of the
  object literal, to the first landmark found by a chain of queries joined by
  \<^verbatim>\<open>||\<close>, or to null. The selectors besides the tag names are
  \<^verbatim>\<open>div[role="r"]\<close> and \<^verbatim>\<open>.c\<close>.
\<close>

definition sel_div_role :: "string \<Rightarrow> selector" where
  "sel_div_role r = [[Type ''div'', AttrEquals ''role'' r]]"

definition sel_class :: "string \<Rightarrow> selector" where
  "sel_class c = [[Class c]]"

definition or_else :: "'a option \<Rightarrow> 'a option \<Rightarrow> 'a option" where
  "or_else a b = (case a of Some x \<Rightarrow> Some x | None \<Rightarrow> b)"

type_synonym sections = "(string \<times> element option) list"

definition resolve_sections :: "document \<Rightarrow> sections" where
  "resolve_sections doc =
     [ (''header'',
          or_else (querySelector doc (sel_tag ''header''))
            (or_else (querySelector doc (sel_div_role ''banner''))
               (querySelector doc (sel_class ''header'')))),
       (''navigation'',
          or_else (querySelector doc (sel_tag ''nav''))
            (querySelector doc (sel_div_role ''navigation''))),
       (''content'',
          or_else (querySelector doc (sel_tag ''main''))
            (or_else (querySelector doc (sel_div_role ''main''))
               (querySelector doc (sel_class ''content'')))),
       (''sidebar'',
          or_else (querySelector doc (sel_tag ''aside''))
            (querySelector doc (sel_class ''sidebar''))),
       (''footer'',
          or_else (querySelector doc (sel_tag ''footer''))
            (or_else (querySelector doc (sel_div_role ''contentinfo''))
               (querySelector doc (sel_class ''footer'')))) ]"

fun determineSectionForElement :: "element \<Rightarrow> sections \<Rightarrow> string" where
  "determineSectionForElement e [] = ''general''"
| "determineSectionForElement e ((sectionName, sectionElement) # rest) =
     (case sectionElement of
        Some s \<Rightarrow> if contains s e then sectionName else determineSectionForElement e rest
      | None \<Rightarrow> determineSectionForElement e rest)"

fun join :: "string list \<Rightarrow> string \<Rightarrow> string" where
  "join [] sep = []"
| "join [x] sep = x"
| "join (x # y # ys) sep = x @ sep @ join (y # ys) sep"

definition getSelector :: "element \<Rightarrow> string" where
  "getSelector e =
     (let sel = toLowerCase (tagName e)
      in if element_id e \<noteq> [] then sel @ ''#'' @ element_id e
         else if length (classList e) > 0 then sel @ ''.'' @ join (classList e) ''.''
         else sel)"

definition capitalizeFirstLetter :: "string \<Rightarrow> string" where
  "capitalizeFirstLetter s =
     (if s = ''header'' then ''Header''
      else if s = ''navigation'' then ''Navigation''
      else if s = ''content'' then ''Main Content''
      else if s = ''sidebar'' then ''Sidebar''
      else if s = ''footer'' then ''Footer''
      else ''General'')"

definition initial_sectionAnalysis :: "SectionAnalysis list" where
  "initial_sectionAnalysis =
     [ \<lparr> name = ''Header'', score = 100, section_issues = [], importance = 8 \<rparr>,
       \<lparr> name = ''Navigation'', score = 100, section_issues = [], importance = 7 \<rparr>,
       \<lparr> name = ''Main Content'', score = 100, section_issues = [], importance = 10 \<rparr>,
       \<lparr> name = ''Sidebar'', score = 100, section_issues = [], importance = 5 \<rparr>,
       \<lparr> name = ''Footer'', score = 100, section_issues = [], importance = 4 \<rparr>,
       \<lparr> name = ''General'', score = 100, section_issues = [], importance = 6 \<rparr> ]"

text \<open>
  \<^verbatim>\<open>sectionAnalysis.find(s => s.name === n)\<close>, and on the record found the push of
  the issue and the penalty; nothing when no record has the name.
\<close>

fun penalize :: "string \<Rightarrow> ElementIssue \<Rightarrow> int \<Rightarrow> SectionAnalysis list \<Rightarrow> SectionAnalysis list" where
  "penalize n i penalty [] = []"
| "penalize n i penalty (s # ss) =
     (if name s = n
      then s\<lparr> section_issues := section_issues s @ [i], score := score s - penalty \<rparr> # ss
      else s # penalize n i penalty ss)"

definition report :: "ElementIssue \<Rightarrow> string \<Rightarrow> int \<Rightarrow> ElementAnalysisResult \<Rightarrow> ElementAnalysisResult" where
  "report i sectionName penalty st =
     st\<lparr> elementIssues := elementIssues st @ [i],
         sectionAnalysis := penalize sectionName i penalty (sectionAnalysis st) \<rparr>"

definition count_one :: "ElementAnalysisResult \<Rightarrow> ElementAnalysisResult" where
  "count_one st = st\<lparr> analyzedElements := analyzedElements st + 1, totalElements := totalElements st + 1 \<rparr>"

definition title_issue :: "string \<Rightarrow> severity \<Rightarrow> nat list \<Rightarrow> ElementIssue" where
  "title_issue what sev rec =
     \<lparr> selector = ''head > title'', element = ''Title'', issue = what, issue_severity = sev,
       recommendation = rec, issue_section = ''header'' \<rparr>"

definition check_title_element :: "document \<Rightarrow> ElementAnalysisResult \<Rightarrow> ElementAnalysisResult" where
  "check_title_element doc st0 =
     (let st = count_one st0;
          missing = report (title_issue ''Missing page title'' high
                      (units ''Add a descriptive title tag that includes primary keywords'')) ''Header'' 25 st
      in case querySelector doc (sel_tag ''title'') of
           None \<Rightarrow> missing
         | Some t \<Rightarrow>
             if textContent t = [] then missing
             else if length (textContent t) < 20 then
               report (title_issue ''Title is too short'' medium
                 (units ''Create a more descriptive title between 50-60 characters that includes key terms''))
                 ''Header'' 15 st
             else if length (textContent t) > 60 then
               report (title_issue ''Title is too long'' low
                 (units ''Keep your title under 60 characters to avoid truncation in search results''))
                 ''Header'' 10 st
             else st)"

definition meta_issue :: "string \<Rightarrow> severity \<Rightarrow> nat list \<Rightarrow> ElementIssue" where
  \<open>meta_issue what sev rec =
     \<lparr> selector = ''head > meta[name="description"]'', element = ''Meta Description'',
       issue = what, issue_severity = sev, recommendation = rec, issue_section = ''header'' \<rparr>\<close>

definition check_meta_description_element :: "document \<Rightarrow> ElementAnalysisResult \<Rightarrow> ElementAnalysisResult" where
  "check_meta_description_element doc st0 =
     (let st = count_one st0;
          missing = report (meta_issue ''Missing meta description'' high
                      (units ''Add a compelling meta description between 120-158 characters'')) ''Header'' 25 st
      in case querySelector doc (sel_meta_name ''description'') of
           None \<Rightarrow> missing
         | Some m \<Rightarrow>
             (case getAttribute m ''content'' of
                None \<Rightarrow> missing
              | Some c \<Rightarrow>
                  if c = [] then missing
                  else if length c < 70 then
                    report (meta_issue ''Meta description is too short'' medium
                      (units ''Create a more compelling meta description between 120-158 characters''))
                      ''Header'' 15 st
                  else if length c > 160 then
                    report (meta_issue ''Meta description is too long'' low
                      (units ''Keep meta description under 158 characters to avoid truncation''))
                      ''Header'' 10 st
                  else st))"

text \<open>
  The loops over the images, headings, links and paragraphs. Each adds the number of
  elements found to \<open>totalElements\<close> before the loop, and 1 to \<open>analyzedElements\<close>
  for each element in the loop.
\<close>

definition add_total :: "nat \<Rightarrow> ElementAnalysisResult \<Rightarrow> ElementAnalysisResult" where
  "add_total n st = st\<lparr> totalElements := totalElements st + n \<rparr>"

definition analyzed :: "ElementAnalysisResult \<Rightarrow> ElementAnalysisResult" where
  "analyzed st = st\<lparr> analyzedElements := analyzedElements st + 1 \<rparr>"

definition image_step :: "sections \<Rightarrow> ElementAnalysisResult \<Rightarrow> element \<Rightarrow> ElementAnalysisResult" where
  "image_step secs st0 img =
     (let st = analyzed st0
      in if \<not> hasAttribute img ''alt'' then
           (let sec = determineSectionForElement img secs
            in report \<lparr> selector = getSelector img, element = ''Image'',
                        issue = ''Image missing alt text'', issue_severity = medium,
                        recommendation = units ''Add descriptive alt text to the image that includes relevant keywords'',
                        issue_section = sec \<rparr>
                 (capitalizeFirstLetter sec) 10 st)
         else st)"

definition check_images_elements :: "document \<Rightarrow> sections \<Rightarrow> ElementAnalysisResult \<Rightarrow> ElementAnalysisResult" where
  "check_images_elements doc secs st =
     (let imgs = querySelectorAll doc (sel_tag ''img'')
      in foldl (image_step secs) (add_total (length imgs) st) imgs)"

text \<open>
  The heading loop carries \<open>h1Count\<close> and \<open>previousHeadingLevel\<close>; a level is
  \<open>None\<close> where \<^verbatim>\<open>parseInt\<close> gives NaN, with which every comparison is false.
\<close>

type_synonym heading_state = "ElementAnalysisResult \<times> nat \<times> nat option"

definition multiple_h1_issue :: "element \<Rightarrow> string \<Rightarrow> ElementIssue" where
  "multiple_h1_issue heading sec =
     \<lparr> selector = getSelector heading, element = ''H1 Heading'',
       issue = ''Multiple H1 headings'', issue_severity = medium,
       recommendation = units ''Use only one H1 heading as the main title of your page'',
       issue_section = sec \<rparr>"

definition skipped_level_issue :: "element \<Rightarrow> nat \<Rightarrow> nat \<Rightarrow> string \<Rightarrow> ElementIssue" where
  "skipped_level_issue heading previousHeadingLevel level sec =
     \<lparr> selector = getSelector heading, element = ''H'' @ String level @ '' Heading'',
       issue = ''Skipped heading level (H'' @ String previousHeadingLevel @ '' to H''
                 @ String level @ '')'',
       issue_severity = low,
       recommendation = units ''Maintain proper heading hierarchy (H1 '' @ [8594] @ units '' H2 '' @ [8594]
                          @ units '' H3) to improve page structure'',
       issue_section = sec \<rparr>"

definition heading_step :: "sections \<Rightarrow> heading_state \<Rightarrow> element \<Rightarrow> heading_state" where
  "heading_step secs hst heading =
     (case hst of (st0, h1Count0, previousHeadingLevel) \<Rightarrow>
        let st1 = analyzed st0;
            level = parseInt (drop 1 (tagName heading));
            h1Count = (if level = Some 1 then h1Count0 + 1 else h1Count0);
            st2 = (if level = Some 1 \<and> h1Count > 1 then
                     (let sec = determineSectionForElement heading secs
                      in report (multiple_h1_issue heading sec) (capitalizeFirstLetter sec) 15 st1)
                   else st1);
            st3 = (case (previousHeadingLevel, level) of
                     (Some prev, Some l) \<Rightarrow>
                       if prev > 0 \<and> l > prev + 1 then
                         (let sec = determineSectionForElement heading secs
                          in report (skipped_level_issue heading prev l sec)
                               (capitalizeFirstLetter sec) 5 st2)
                       else st2
                   | _ \<Rightarrow> st2)
        in (st3, h1Count, level))"

definition missing_h1_issue :: ElementIssue where
  "missing_h1_issue =
     \<lparr> selector = ''body'', element = ''H1 Heading'', issue = ''Missing H1 heading'',
       issue_severity = high,
       recommendation = units ''Add an H1 heading as the main title of your page'',
       issue_section = ''content'' \<rparr>"

definition check_headings_elements :: "document \<Rightarrow> sections \<Rightarrow> ElementAnalysisResult \<Rightarrow> ElementAnalysisResult" where
  "check_headings_elements doc secs st =
     (let hs = querySelectorAll doc sel_headings
      in case foldl (heading_step secs) (add_total (length hs) st, 0, Some 0) hs of
           (st', h1Count, previousHeadingLevel) \<Rightarrow>
             if h1Count = 0 then report missing_h1_issue ''Main Content'' 20 st' else st')"

definition link_step :: "sections \<Rightarrow> ElementAnalysisResult \<Rightarrow> element \<Rightarrow> ElementAnalysisResult" where
  "link_step secs st0 link =
     (let st = analyzed st0;
          txt = textContent link
      in if txt = [] \<or> length (trim txt) = 0
            \<or> toLowerCase (trim txt) = ''click here''
            \<or> toLowerCase (trim txt) = ''read more'' then
           (let sec = determineSectionForElement link secs
            in report \<lparr> selector = getSelector link, element = ''Link'',
                        issue = (if txt \<noteq> [] then ''Non-descriptive link text''
                                 else ''Link missing text content''),
                        issue_severity = medium,
                        recommendation = units ''Use descriptive link text that explains where the link will take users'',
                        issue_section = sec \<rparr>
                 (capitalizeFirstLetter sec) 10 st)
         else st)"

definition check_links_elements :: "document \<Rightarrow> sections \<Rightarrow> ElementAnalysisResult \<Rightarrow> ElementAnalysisResult" where
  "check_links_elements doc secs st =
     (let ls = querySelectorAll doc sel_a_href
      in foldl (link_step secs) (add_total (length ls) st) ls)"

definition paragraph_step :: "sections \<Rightarrow> ElementAnalysisResult \<Rightarrow> element \<Rightarrow> ElementAnalysisResult" where
  "paragraph_step secs st0 p =
     (let st = analyzed st0
      in if textContent p \<noteq> [] \<and> length (textContent p) > 300 then
           (let sec = determineSectionForElement p secs
            in report \<lparr> selector = getSelector p, element = ''Paragraph'',
                        issue = ''Long paragraph (over 300 characters)'', issue_severity = low,
                        recommendation = units ''Break long paragraphs into smaller chunks for better readability'',
                        issue_section = sec \<rparr>
                 (capitalizeFirstLetter sec) 5 st)
         else st)"

definition check_paragraphs_elements :: "document \<Rightarrow> sections \<Rightarrow> ElementAnalysisResult \<Rightarrow> ElementAnalysisResult" where
  "check_paragraphs_elements doc secs st =
     (let ps = querySelectorAll doc (sel_tag ''p'')
      in foldl (paragraph_step secs) (add_total (length ps) st) ps)"

text \<open>The final pass: every score is brought into the range from 0 to 100.\<close>

definition clamp_score :: "SectionAnalysis \<Rightarrow> SectionAnalysis" where
  "clamp_score s = s\<lparr> score := max 0 (min 100 (score s)) \<rparr>"

definition clamp_scores :: "ElementAnalysisResult \<Rightarrow> ElementAnalysisResult" where
  "clamp_scores st = st\<lparr> sectionAnalysis := map clamp_score (sectionAnalysis st) \<rparr>"

definition initial_result :: "string \<Rightarrow> ElementAnalysisResult" where
  "initial_result u =
     \<lparr> url = u, totalElements = 0, analyzedElements = 0, elementIssues = [],
       sectionAnalysis = initial_sectionAnalysis \<rparr>"

text \<open>The analysis before the final pass, and the analyzer.\<close>

definition run_element_checks :: "document \<Rightarrow> string \<Rightarrow> ElementAnalysisResult" where
  "run_element_checks doc u =
     (let secs = resolve_sections doc;
          st1 = check_title_element doc (initial_result u);
          st2 = check_meta_description_element doc st1;
          st3 = check_images_elements doc secs st2;
          st4 = check_headings_elements doc secs st3;
          st5 = check_links_elements doc secs st4;
          st6 = check_paragraphs_elements doc secs st5
      in st6)"

definition analyzePageElements :: "document \<Rightarrow> string \<Rightarrow> ElementAnalysisResult" where
  "analyzePageElements doc u = clamp_scores (run_element_checks doc u)"

section \<open>The specification's reading of the document analyzer\<close>

text \<open>
  The nine checks as the specification lists them: each yields at most one finding,
  a severity with the title of the issue. \<open>checks_on_extraction\<close> is the list of
  the nine, in the specification's order, on what the code extracts; \<open>spec_checks\<close>
  below is the list on what the specification says each check looks at.
\<close>

type_synonym finding = "severity \<times> string"

definition spec_check_title :: "string \<Rightarrow> finding option" where
  "spec_check_title t =
     (if length t = 0 then Some (high, ''Missing page title'')
      else if length t < 10 then Some (medium, ''Title too short'')
      else if length t > 60 then Some (low, ''Title too long'')
      else None)"

definition spec_check_meta_description :: "string \<Rightarrow> finding option" where
  "spec_check_meta_description d =
     (if length d = 0 then Some (high, ''Missing meta description'')
      else if length d < 50 then Some (medium, ''Meta description too short'')
      else if length d > 160 then Some (low, ''Meta description too long'')
      else None)"

definition spec_check_h1_count :: "nat \<Rightarrow> finding option" where
  "spec_check_h1_count n =
     (if n = 0 then Some (high, ''Missing H1 heading'')
      else if n > 1 then Some (medium, ''Multiple H1 headings'')
      else None)"

definition spec_check_h2_without_h1 :: "nat \<Rightarrow> nat \<Rightarrow> finding option" where
  "spec_check_h2_without_h1 n1 n2 =
     (if n2 > 0 \<and> n1 = 0 then Some (medium, ''H2 without H1'') else None)"

definition spec_check_h3_without_h2 :: "nat \<Rightarrow> nat \<Rightarrow> finding option" where
  "spec_check_h3_without_h2 n2 n3 =
     (if n3 > 0 \<and> n2 = 0 then Some (low, ''H3 without H2'') else None)"

definition spec_check_images_alt :: "nat \<Rightarrow> int \<Rightarrow> finding option" where
  "spec_check_images_alt n_total n_without =
     (if n_without > 0 \<and> n_total > 0 then Some (medium, ''Images missing alt text'') else None)"

definition spec_check_link_text :: "nat \<Rightarrow> finding option" where
  "spec_check_link_text n = (if n > 0 then Some (medium, ''Links without text'') else None)"

definition spec_check_viewport :: "bool \<Rightarrow> finding option" where
  "spec_check_viewport present = (if present then None else Some (high, ''Missing viewport meta tag''))"

definition spec_check_structured_data :: "bool \<Rightarrow> finding option" where
  "spec_check_structured_data present =
     (if present then None else Some (medium, ''Missing structured data''))"

definition checks_on_extraction :: "document \<Rightarrow> finding option list" where
  "checks_on_extraction doc =
     [ spec_check_title (extract_title doc),
       spec_check_meta_description (content_of doc (sel_meta_name ''description'')),
       spec_check_h1_count (length (querySelectorAll doc (sel_tag ''h1''))),
       spec_check_h2_without_h1 (length (querySelectorAll doc (sel_tag ''h1'')))
         (length (querySelectorAll doc (sel_tag ''h2''))),
       spec_check_h3_without_h2 (length (querySelectorAll doc (sel_tag ''h2'')))
         (length (querySelectorAll doc (sel_tag ''h3''))),
       spec_check_images_alt (images_total (extract_images doc)) (withoutAlt (extract_images doc)),
       spec_check_link_text (linksWithoutText (querySelectorAll doc sel_a_href)),
       spec_check_viewport (querySelector doc (sel_meta_name ''viewport'') \<noteq> None),
       spec_check_structured_data (hasStructuredData doc) ]"

definition findings :: "Issue list \<Rightarrow> finding list" where
  "findings is = map (\<lambda>i. (severity i, issue_title i)) is"

text \<open>
  What each check looks at, in the specification's words and read off the tree
  itself: the title is the text of the first \<open>title\<close> element, else empty; the
  meta description is the \<open>content\<close> of the first \<open>meta\<close> element named
  \<open>description\<close>, else empty; the headings and images are counted by tag name; an
  image is without alt when it has no \<open>alt\<close> attribute at all; a link without
  text is an \<open>a\<close> element with an \<open>href\<close> whose text is empty or white space; the
  viewport is a \<open>meta\<close> element named \<open>viewport\<close>; and structured data is a
  \<open>script\<close> element of type \<open>application/ld+json\<close> or any element with an
  \<open>itemscope\<close> or \<open>itemprop\<close> attribute.
\<close>

definition spec_is :: "string \<Rightarrow> element \<Rightarrow> bool" where
  "spec_is t e = (localName (snd e) = t)"

definition spec_meta_named :: "string \<Rightarrow> element \<Rightarrow> bool" where
  "spec_meta_named n e = (localName (snd e) = ''meta'' \<and> getAttribute e ''name'' = Some n)"

definition spec_count :: "document \<Rightarrow> (element \<Rightarrow> bool) \<Rightarrow> nat" where
  "spec_count doc P = length (filter P (all_elements doc))"

definition spec_title :: "document \<Rightarrow> string" where
  "spec_title doc =
     (case List.find (spec_is ''title'') (all_elements doc) of
        None \<Rightarrow> [] | Some e \<Rightarrow> textContent e)"

definition spec_meta_description :: "document \<Rightarrow> string" where
  "spec_meta_description doc =
     (case List.find (spec_meta_named ''description'') (all_elements doc) of
        None \<Rightarrow> []
      | Some e \<Rightarrow> (case getAttribute e ''content'' of None \<Rightarrow> [] | Some v \<Rightarrow> v))"

definition spec_image_without_alt :: "element \<Rightarrow> bool" where
  "spec_image_without_alt e = (localName (snd e) = ''img'' \<and> getAttribute e ''alt'' = None)"

definition spec_link_without_text :: "element \<Rightarrow> bool" where
  "spec_link_without_text e =
     (localName (snd e) = ''a'' \<and> getAttribute e ''href'' \<noteq> None \<and> trim (textContent e) = [])"

definition spec_has_viewport :: "document \<Rightarrow> bool" where
  "spec_has_viewport doc = list_ex (spec_meta_named ''viewport'') (all_elements doc)"

definition spec_structured :: "element \<Rightarrow> bool" where
  "spec_structured e =
     ((localName (snd e) = ''script''
         \<and> (case getAttribute e ''type'' of
               None \<Rightarrow> False | Some t \<Rightarrow> toLowerCase t = ''application/ld+json''))
      \<or> getAttribute e ''itemscope'' \<noteq> None \<or> getAttribute e ''itemprop'' \<noteq> None)"

definition spec_has_structured_data :: "document \<Rightarrow> bool" where
  "spec_has_structured_data doc = list_ex spec_structured (all_elements doc)"

definition spec_checks :: "document \<Rightarrow> finding option list" where
  "spec_checks doc =
     [ spec_check_title (spec_title doc),
       spec_check_meta_description (spec_meta_description doc),
       spec_check_h1_count (spec_count doc (spec_is ''h1'')),
       spec_check_h2_without_h1 (spec_count doc (spec_is ''h1'')) (spec_count doc (spec_is ''h2'')),
       spec_check_h3_without_h2 (spec_count doc (spec_is ''h2'')) (spec_count doc (spec_is ''h3'')),
       spec_check_images_alt (spec_count doc (spec_is ''img''))
         (int (spec_count doc spec_image_without_alt)),
       spec_check_link_text (spec_count doc spec_link_without_text),
       spec_check_viewport (spec_has_viewport doc),
       spec_check_structured_data (spec_has_structured_data doc) ]"

text \<open>
  For the proofs: a check takes a state to the next by pushing the finding it is
  given, or leaves it when there is none; and a state is numbered when its issues
  carry the given findings and the identifiers 1, 2, ... with the counter one ahead.
\<close>

definition adds :: "issue_state \<Rightarrow> finding option \<Rightarrow> issue_state \<Rightarrow> bool" where
  "adds st x st' =
     (case x of
        None \<Rightarrow> st' = st
      | Some (sev, t) \<Rightarrow> (\<exists>d f. st' = push sev t d f st))"

definition numbered :: "issue_state \<Rightarrow> finding list \<Rightarrow> bool" where
  "numbered st fs =
     (findings (fst st) = fs \<and> map issue_id (fst st) = [1 ..< snd st]
      \<and> snd st = Suc (length (fst st)))"

text \<open>
  The link classes as the code decides them: a link is internal when its \<open>href\<close>
  starts with \<open>#\<close> or \<open>/\<close>, or when a reference URL is given and the \<open>href\<close>
  contains its host name; it is external when it starts with \<open>http\<close> and is not
  internal.
\<close>

definition spec_internal :: "url_parser \<Rightarrow> string \<Rightarrow> string \<Rightarrow> bool" where
  "spec_internal hostname_of u href =
     (startsWith href ''#'' \<or> startsWith href ''/''
      \<or> (u \<noteq> [] \<and> (case hostname_of u of None \<Rightarrow> False | Some h \<Rightarrow> str_includes href h)))"

definition spec_external :: "url_parser \<Rightarrow> string \<Rightarrow> string \<Rightarrow> bool" where
  "spec_external hostname_of u href =
     (startsWith href ''http'' \<and> \<not> spec_internal hostname_of u href)"

section \<open>The specification's reading of the element analyzer\<close>

text \<open>
  The penalty table of the specification, keyed by the text of the issue; the names
  of the six section records; the issues of one section, picked from the flat list
  by the label of their \<open>section\<close> field; and the invariant tying the section
  records to the flat list: each record holds the issues of its label, and its score
  is 100 less the penalties of these issues.
\<close>

definition spec_penalty :: "ElementIssue \<Rightarrow> int" where
  "spec_penalty i =
     (if issue i = ''Missing page title'' then 25
      else if issue i = ''Title is too short'' then 15
      else if issue i = ''Title is too long'' then 10
      else if issue i = ''Missing meta description'' then 25
      else if issue i = ''Meta description is too short'' then 15
      else if issue i = ''Meta description is too long'' then 10
      else if issue i = ''Image missing alt text'' then 10
      else if issue i = ''Multiple H1 headings'' then 15
      else if issue i = ''Missing H1 heading'' then 20
      else if issue i = ''Non-descriptive link text'' then 10
      else if issue i = ''Link missing text content'' then 10
      else if issue i = ''Long paragraph (over 300 characters)'' then 5
      else if startsWith (issue i) ''Skipped heading level'' then 5
      else 0)"

definition section_names :: "string list" where
  "section_names = [''Header'', ''Navigation'', ''Main Content'', ''Sidebar'', ''Footer'', ''General'']"

definition issues_of_section :: "string \<Rightarrow> ElementIssue list \<Rightarrow> ElementIssue list" where
  "issues_of_section n is = filter (\<lambda>i. capitalizeFirstLetter (issue_section i) = n) is"

definition consistent :: "ElementAnalysisResult \<Rightarrow> bool" where
  "consistent st =
     (map name (sectionAnalysis st) = section_names
      \<and> map importance (sectionAnalysis st) = [8, 7, 10, 5, 4, 6]
      \<and> list_all (\<lambda>s. section_issues s = issues_of_section (name s) (elementIssues st)
                      \<and> score s = 100 - sum_list (map spec_penalty (section_issues s)))
           (sectionAnalysis st))"

text \<open>The number of elements the element analyzer visits.\<close>

definition elements_found :: "document \<Rightarrow> nat" where
  "elements_found doc =
     2 + length (querySelectorAll doc (sel_tag ''img''))
       + length (querySelectorAll doc sel_headings)
       + length (querySelectorAll doc sel_a_href)
       + length (querySelectorAll doc (sel_tag ''p''))"

text \<open>
  Section attribution as the specification words it. Each of the five regions has a
  chain of queries, tried in order: an element name, a \<open>div\<close> with a given
  \<open>role\<close>, or a class, read off the tokens of the \<open>class\<close> attribute
  (without regard to ASCII case in a quirks-mode document). The landmark of a region
  is the first element, in document order, that answers the first query of the chain
  that any element answers. A region contains an element when its landmark is the
  element or an ancestor of it, that is, when the element lies in the subtree of the
  landmark. The section of an element is the name of the first region that contains
  it, and general when none does.
\<close>

datatype landmark_query = ByTag string | ByDivRole string | ByClass string

definition spec_has_class :: "bool \<Rightarrow> element \<Rightarrow> string \<Rightarrow> bool" where
  "spec_has_class quirks e c =
     (case getAttribute e ''class'' of
        None \<Rightarrow> False
      | Some v \<Rightarrow>
          if quirks then map ascii_lower c \<in> set (map (map ascii_lower) (tokens [] v))
          else c \<in> set (tokens [] v))"

fun spec_query_matches :: "bool \<Rightarrow> element \<Rightarrow> landmark_query \<Rightarrow> bool" where
  "spec_query_matches quirks e (ByTag t) = (localName (snd e) = t)"
| "spec_query_matches quirks e (ByDivRole r) =
     (localName (snd e) = ''div'' \<and> getAttribute e ''role'' = Some r)"
| "spec_query_matches quirks e (ByClass c) = spec_has_class quirks e c"

definition spec_region_chains :: "(string \<times> landmark_query list) list" where
  "spec_region_chains =
     [ (''header'', [ByTag ''header'', ByDivRole ''banner'', ByClass ''header'']),
       (''navigation'', [ByTag ''nav'', ByDivRole ''navigation'']),
       (''content'', [ByTag ''main'', ByDivRole ''main'', ByClass ''content'']),
       (''sidebar'', [ByTag ''aside'', ByClass ''sidebar'']),
       (''footer'', [ByTag ''footer'', ByDivRole ''contentinfo'', ByClass ''footer'']) ]"

fun spec_landmark :: "document \<Rightarrow> landmark_query list \<Rightarrow> element option" where
  "spec_landmark doc [] = None"
| "spec_landmark doc (qry # chain) =
     (case List.find (\<lambda>e. spec_query_matches (quirksMode doc) e qry) (all_elements doc) of
        Some landmark \<Rightarrow> Some landmark
      | None \<Rightarrow> spec_landmark doc chain)"

definition region_contains :: "document \<Rightarrow> element \<Rightarrow> string \<times> landmark_query list \<Rightarrow> bool" where
  "region_contains doc e region =
     (case spec_landmark doc (snd region) of
        None \<Rightarrow> False
      | Some landmark \<Rightarrow> e \<in> set (descendants (fst landmark) (snd landmark)))"

definition spec_section :: "document \<Rightarrow> element \<Rightarrow> string" where
  "spec_section doc e =
     (case filter (region_contains doc e) spec_region_chains of
        [] \<Rightarrow> ''general''
      | region # rest \<Rightarrow> fst region)"

text \<open>
  The headings of a page and their levels; the headings that skip a level, given
  the level of the heading before (0 at the start); and the links of a page.
\<close>

definition spec_heading :: "element \<Rightarrow> bool" where
  "spec_heading e = (localName (snd e) \<in> {''h1'', ''h2'', ''h3'', ''h4'', ''h5'', ''h6''})"

definition spec_level :: "element \<Rightarrow> nat" where
  "spec_level e =
     (if localName (snd e) = ''h1'' then 1 else if localName (snd e) = ''h2'' then 2
      else if localName (snd e) = ''h3'' then 3 else if localName (snd e) = ''h4'' then 4
      else if localName (snd e) = ''h5'' then 5 else if localName (snd e) = ''h6'' then 6
      else 0)"

fun spec_skipped :: "nat \<Rightarrow> element list \<Rightarrow> element list" where
  "spec_skipped previous [] = []"
| "spec_skipped previous (h # hs) =
     (if previous > 0 \<and> spec_level h > previous + 1 then [h] else [])
       @ spec_skipped (spec_level h) hs"

definition spec_link :: "element \<Rightarrow> bool" where
  "spec_link e = (localName (snd e) = ''a'' \<and> getAttribute e ''href'' \<noteq> None)"

text \<open>
  The kinds of issue of the element analyzer. The issues on the title and on the
  meta description carry the section header, and the issue of a page without
  \<open>h1\<close> carries content; the others carry the section of their element.
\<close>

definition spec_issue_kind :: "ElementIssue \<Rightarrow> bool" where
  "spec_issue_kind i =
     ((element i = ''Title''
         \<and> issue i \<in> {''Missing page title'', ''Title is too short'', ''Title is too long''}
         \<and> issue_section i = ''header'')
      \<or> (element i = ''Meta Description''
         \<and> issue i \<in> {''Missing meta description'', ''Meta description is too short'',
                        ''Meta description is too long''}
         \<and> issue_section i = ''header'')
      \<or> (element i = ''Image'' \<and> issue i = ''Image missing alt text'')
      \<or> (element i = ''H1 Heading'' \<and> issue i = ''Multiple H1 headings'')
      \<or> (take 1 (element i) = ''H'' \<and> startsWith (issue i) ''Skipped heading level'')
      \<or> (element i = ''H1 Heading'' \<and> issue i = ''Missing H1 heading''
         \<and> issue_section i = ''content'')
      \<or> (element i = ''Link''
         \<and> issue i \<in> {''Non-descriptive link text'', ''Link missing text content''})
      \<or> (element i = ''Paragraph'' \<and> issue i = ''Long paragraph (over 300 characters)''))"

text \<open>
  The link text the specification's table faults, and the sections of the issues
  raised on one kind of element, in the order of the flat list.
\<close>

definition spec_bad_link_text :: "string \<Rightarrow> bool" where
  "spec_bad_link_text txt =
     (trim txt = [] \<or> toLowerCase (trim txt) = ''click here'' \<or> toLowerCase (trim txt) = ''read more'')"

definition sections_of :: "string \<Rightarrow> ElementAnalysisResult \<Rightarrow> string list" where
  "sections_of what st = map issue_section (filter (\<lambda>i. element i = what) (elementIssues st))"

text \<open>
  Two notions for the proofs: a state follows another by appending issues that all
  satisfy a predicate; and a heading is of level 1.
\<close>

definition appends :: "(ElementIssue \<Rightarrow> bool) \<Rightarrow> ElementAnalysisResult \<Rightarrow> ElementAnalysisResult \<Rightarrow> bool" where
  "appends Q st st' = (\<exists>js. elementIssues st' = elementIssues st @ js \<and> list_all Q js)"

definition is_h1 :: "element \<Rightarrow> bool" where
  "is_h1 h = (parseInt (drop 1 (tagName h)) = Some 1)"

text \<open>For the proofs: the selector the code passes to \<^verbatim>\<open>querySelector\<close> for a query.\<close>

definition sel_of_query :: "landmark_query \<Rightarrow> selector" where
  "sel_of_query qry =
     (case qry of ByTag t \<Rightarrow> sel_tag t | ByDivRole r \<Rightarrow> sel_div_role r | ByClass c \<Rightarrow> sel_class c)"

section \<open>Example documents\<close>

text \<open>
  The example pages start with a doctype, so they are no-quirks documents. The first
  is a page with a header, a navigation, a main region and a footer, two \<open>h1\<close>
  headings, images with and without \<open>alt\<close>, and links in several regions.
\<close>

definition doc_landmarks :: document where
  "doc_landmarks =
     Document False
     [Element ''html'' []
       [Element ''head'' [] [Element ''title'' [] [Text ''Short'']],
        Element ''body'' []
         [Element ''header'' []
            [Element ''h1'' [] [Text ''Site''], Element ''img'' [(''src'', ''logo.png'')] []],
          Element ''nav'' []
            [Element ''a'' [(''href'', ''/'')] [Text ''Click here'']],
          Element ''main'' []
            [Element ''h1'' [] [Text ''Second''],
             Element ''h4'' [(''id'', ''deep'')] [Text ''Deep''],
             Element ''p'' [] [Text ''Some text.''],
             Element ''img'' [(''src'', ''a.png''), (''alt'', ''A'')] []],
          Element ''div'' [(''class'', ''box wide'')]
            [Element ''img'' [(''class'', ''big  round big'')] []],
          Element ''footer'' []
            [Element ''a'' [(''href'', ''https://example.org/'')] [],
             Element ''img'' [(''src'', ''f.png'')] []]]]]"

text \<open>
  A page whose meta description has \<open>n\<close> characters, and a page with two \<open>h1\<close>
  headings outside every landmark; both have a title and a description of passing
  lengths.
\<close>

definition doc_meta :: "nat \<Rightarrow> document" where
  "doc_meta n =
     Document False
     [Element ''html'' []
       [Element ''head'' []
          [Element ''title'' [] [Text ''A page about nothing in particular''],
           Element ''meta'' [(''name'', ''description''), (''content'', replicate n CHR ''a'')] []],
        Element ''body'' [] [Element ''h1'' [] [Text ''Nothing'']]]]"

definition doc_two_h1 :: document where
  "doc_two_h1 =
     Document False
     [Element ''html'' []
       [Element ''head'' []
          [Element ''title'' [] [Text ''A page about nothing in particular''],
           Element ''meta'' [(''name'', ''description''), (''content'', replicate 100 CHR ''a'')] []],
        Element ''body'' [] [Element ''h1'' [] [Text ''First''], Element ''h1'' [] [Text ''Second'']]]]"

text \<open>
  The page of the scenario: no title, no meta description, one \<open>h1\<close>, one image
  without \<open>alt\<close>, and a viewport tag. And a page of five links: a fragment, an
  absolute path, two absolute URLs and a relative path.
\<close>

definition doc_scenario :: document where
  \<open>doc_scenario =
     Document False
     [Element ''html'' []
       [Element ''head'' []
          [Element ''meta'' [(''name'', ''viewport''), (''content'', ''width=device-width, initial-scale=1'')] []],
        Element ''body'' []
          [Element ''h1'' [] [Text ''Welcome''],
           Element ''img'' [(''src'', ''photo.png'')] []]]]\<close>

definition doc_links :: document where
  "doc_links =
     Document False
     [Element ''html'' []
       [Element ''head'' [] [],
        Element ''body'' []
          [Element ''a'' [(''href'', ''#top'')] [Text ''Top''],
           Element ''a'' [(''href'', ''/about'')] [Text ''About''],
           Element ''a'' [(''href'', ''https://other.org/'')] [Text ''Elsewhere''],
           Element ''a'' [(''href'', ''page.html'')] [Text ''Next page''],
           Element ''a'' [(''href'', ''https://example.com/blog'')] [Text ''Blog'']]]]"

text \<open>
  A quirks-mode page whose regions are found by the later queries of their chains: a
  \<open>div\<close> with role banner, a class written \<open>Content\<close>, a footer class
  inside the main region, a \<open>span\<close> with role navigation (which is no landmark),
  and a sidebar class.
\<close>

definition doc_fallbacks :: document where
  "doc_fallbacks =
     Document True
     [Element ''html'' []
       [Element ''head'' [] [],
        Element ''body'' []
         [Element ''div'' [(''role'', ''banner'')] [Element ''img'' [] []],
          Element ''div'' [(''class'', ''wide Content'')]
            [Element ''img'' [] [],
             Element ''div'' [(''class'', ''footer'')] [Element ''img'' [] []]],
          Element ''span'' [(''role'', ''navigation'')] [Element ''img'' [] []],
          Element ''div'' [(''class'', ''sidebar'')] [Element ''img'' [] []]]]]"

section \<open>Properties\<close>

subsection \<open>The section records follow the flat issue list\<close>

lemma penalize_map:
  "distinct (map name ss) \<Longrightarrow>
   penalize n i p ss =
     map (\<lambda>s. if name s = n then s\<lparr> section_issues := section_issues s @ [i], score := score s - p \<rparr> else s) ss"
proof (induction ss)
  case Nil
  then show ?case by simp
next
  case (Cons s ss)
  show ?case
  proof (cases "name s = n")
    case True
    with Cons.prems have "\<forall>x \<in> set ss. name x \<noteq> n" by (metis distinct.simps(2) imageI list.simps(9) list.set_map)
    then have "map (\<lambda>s. if name s = n then s\<lparr> section_issues := section_issues s @ [i], score := score s - p \<rparr> else s) ss = ss"
      by (intro map_idI) simp
    with True show ?thesis by simp
  next
    case False
    with Cons show ?thesis by simp
  qed
qed

lemma distinct_section_names: "distinct section_names"
  by (simp add: section_names_def)

lemma consistent_initial: "consistent (initial_result u)"
  by (simp add: consistent_def initial_result_def initial_sectionAnalysis_def section_names_def issues_of_section_def)


lemma report_fields [simp]:
  "analyzedElements (report i n p st) = analyzedElements st"
  "totalElements (report i n p st) = totalElements st"
  "url (report i n p st) = url st"
  "elementIssues (report i n p st) = elementIssues st @ [i]"
  by (simp_all add: report_def)

lemma analyzed_fields [simp]:
  "analyzedElements (analyzed st) = analyzedElements st + 1"
  "totalElements (analyzed st) = totalElements st"
  "elementIssues (analyzed st) = elementIssues st"
  "sectionAnalysis (analyzed st) = sectionAnalysis st"
  by (simp_all add: analyzed_def)

lemma add_total_fields [simp]:
  "analyzedElements (add_total k st) = analyzedElements st"
  "totalElements (add_total k st) = totalElements st + k"
  "elementIssues (add_total k st) = elementIssues st"
  "sectionAnalysis (add_total k st) = sectionAnalysis st"
  by (simp_all add: add_total_def)

lemma count_one_fields [simp]:
  "analyzedElements (count_one st) = analyzedElements st + 1"
  "totalElements (count_one st) = totalElements st + 1"
  "elementIssues (count_one st) = elementIssues st"
  "sectionAnalysis (count_one st) = sectionAnalysis st"
  by (simp_all add: count_one_def)

lemma consistent_cong:
  "elementIssues st' = elementIssues st \<Longrightarrow> sectionAnalysis st' = sectionAnalysis st \<Longrightarrow>
   consistent st' = consistent st"
  by (simp add: consistent_def)

lemma consistent_analyzed [simp]: "consistent (analyzed st) = consistent st"
  by (rule consistent_cong) simp_all

lemma consistent_add_total [simp]: "consistent (add_total k st) = consistent st"
  by (rule consistent_cong) simp_all

lemma consistent_count_one [simp]: "consistent (count_one st) = consistent st"
  by (rule consistent_cong) simp_all



lemma map_name_penalize [simp]: "map name (penalize n i p ss) = map name ss"
  by (induction ss) simp_all

lemma map_importance_penalize [simp]: "map importance (penalize n i p ss) = map importance ss"
  by (induction ss) simp_all

lemma issues_of_section_snoc:
  "issues_of_section n (is @ [i]) =
     (if capitalizeFirstLetter (issue_section i) = n then issues_of_section n is @ [i]
      else issues_of_section n is)"
  by (simp add: issues_of_section_def)

lemma consistent_report:
  assumes c: "consistent st"
    and n: "capitalizeFirstLetter (issue_section i) = n"
    and p: "spec_penalty i = p"
  shows "consistent (report i n p st)"
proof -
  let ?ss = "sectionAnalysis st"
  let ?upd = "\<lambda>s. if name s = n
                   then s\<lparr> section_issues := section_issues s @ [i], score := score s - p \<rparr>
                   else s"
  let ?ok = "\<lambda>is s. section_issues s = issues_of_section (name s) is
                     \<and> score s = 100 - sum_list (map spec_penalty (section_issues s))"
  from c have d: "distinct (map name ?ss)"
    by (simp add: consistent_def distinct_section_names)
  from c have old: "\<And>s. s \<in> set ?ss \<Longrightarrow> ?ok (elementIssues st) s"
    by (simp add: consistent_def list_all_iff)
  have step: "?ok (elementIssues st @ [i]) (?upd s)" if "s \<in> set ?ss" for s
    using old[OF that] n p by (simp add: issues_of_section_snoc)
  have "list_all (?ok (elementIssues st @ [i])) (map ?upd ?ss)"
    unfolding list_all_iff
  proof
    fix x assume "x \<in> set (map ?upd ?ss)"
    then obtain s where s: "s \<in> set ?ss" and x: "x = ?upd s" by auto
    show "?ok (elementIssues st @ [i]) x"
      unfolding x by (rule step[OF s])
  qed
  then have "list_all (?ok (elementIssues (report i n p st))) (sectionAnalysis (report i n p st))"
    by (simp add: report_def penalize_map[OF d])
  moreover have "map name (sectionAnalysis (report i n p st)) = section_names"
    using c by (simp add: report_def consistent_def)
  moreover have "map importance (sectionAnalysis (report i n p st)) = [8, 7, 10, 5, 4, 6]"
    using c by (simp add: report_def consistent_def)
  ultimately show ?thesis
    unfolding consistent_def by blast
qed

lemma spec_penalty_simps:
  "issue i = ''Missing page title'' \<Longrightarrow> spec_penalty i = 25"
  "issue i = ''Title is too short'' \<Longrightarrow> spec_penalty i = 15"
  "issue i = ''Title is too long'' \<Longrightarrow> spec_penalty i = 10"
  "issue i = ''Missing meta description'' \<Longrightarrow> spec_penalty i = 25"
  "issue i = ''Meta description is too short'' \<Longrightarrow> spec_penalty i = 15"
  "issue i = ''Meta description is too long'' \<Longrightarrow> spec_penalty i = 10"
  "issue i = ''Image missing alt text'' \<Longrightarrow> spec_penalty i = 10"
  "issue i = ''Multiple H1 headings'' \<Longrightarrow> spec_penalty i = 15"
  "issue i = ''Missing H1 heading'' \<Longrightarrow> spec_penalty i = 20"
  "issue i = ''Non-descriptive link text'' \<Longrightarrow> spec_penalty i = 10"
  "issue i = ''Link missing text content'' \<Longrightarrow> spec_penalty i = 10"
  "issue i = ''Long paragraph (over 300 characters)'' \<Longrightarrow> spec_penalty i = 5"
  by (simp_all add: spec_penalty_def)

lemma spec_penalty_skipped: "spec_penalty (skipped_level_issue h prev l sec) = 5"
  by (simp add: spec_penalty_def skipped_level_issue_def startsWith_def)

lemma spec_penalty_multiple: "spec_penalty (multiple_h1_issue h sec) = 15"
  by (simp add: spec_penalty_simps multiple_h1_issue_def)

lemma issue_section_heading_issues [simp]:
  "issue_section (skipped_level_issue h prev l sec) = sec"
  "issue_section (multiple_h1_issue h sec) = sec"
  by (simp_all add: skipped_level_issue_def multiple_h1_issue_def)

lemma capitalize_header: "capitalizeFirstLetter ''header'' = ''Header''"
  by (simp add: capitalizeFirstLetter_def)

lemma capitalize_content: "capitalizeFirstLetter ''content'' = ''Main Content''"
  by (simp add: capitalizeFirstLetter_def)

lemma title_issue_fields [simp]:
  "issue (title_issue what sev rc) = what"
  "issue_section (title_issue what sev rc) = ''header''"
  "issue (meta_issue what sev rc) = what"
  "issue_section (meta_issue what sev rc) = ''header''"
  by (simp_all add: title_issue_def meta_issue_def)

lemma consistent_check_title_element:
  "consistent st \<Longrightarrow> consistent (check_title_element doc st)"
  unfolding check_title_element_def Let_def
  by (auto split: option.splits intro!: consistent_report
        simp: spec_penalty_simps capitalize_header)

lemma consistent_check_meta_description_element:
  "consistent st \<Longrightarrow> consistent (check_meta_description_element doc st)"
  unfolding check_meta_description_element_def Let_def
  by (auto split: option.splits intro!: consistent_report
        simp: spec_penalty_simps capitalize_header)

lemma consistent_image_step:
  "consistent st \<Longrightarrow> consistent (image_step secs st img)"
  unfolding image_step_def Let_def
  by (auto intro!: consistent_report simp: spec_penalty_simps)

lemma consistent_link_step:
  "consistent st \<Longrightarrow> consistent (link_step secs st l)"
  unfolding link_step_def Let_def
  by (auto intro!: consistent_report simp: spec_penalty_simps)

lemma consistent_paragraph_step:
  "consistent st \<Longrightarrow> consistent (paragraph_step secs st p)"
  unfolding paragraph_step_def Let_def
  by (auto intro!: consistent_report simp: spec_penalty_simps)

lemma consistent_heading_step:
  "consistent (fst hst) \<Longrightarrow> consistent (fst (heading_step secs hst h))"
  by (cases hst)
     (auto simp: heading_step_def Let_def spec_penalty_skipped spec_penalty_multiple
        split: option.splits intro!: consistent_report)

lemma consistent_foldl:
  assumes "\<And>st x. consistent st \<Longrightarrow> consistent (f st x)"
  shows "consistent st \<Longrightarrow> consistent (foldl f st xs)"
  using assms by (induction xs arbitrary: st) simp_all

lemma consistent_foldl_heading:
  "consistent (fst hst) \<Longrightarrow> consistent (fst (foldl (heading_step secs) hst hs))"
  by (induction hs arbitrary: hst) (simp_all add: consistent_heading_step)

lemma consistent_run_element_checks: "consistent (run_element_checks doc u)"
proof -
  have 1: "consistent (check_title_element doc (initial_result u))"
    by (rule consistent_check_title_element[OF consistent_initial])
  have 2: "consistent (check_meta_description_element doc (check_title_element doc (initial_result u)))"
    by (rule consistent_check_meta_description_element[OF 1])
  have img: "\<And>st. consistent st \<Longrightarrow> consistent (check_images_elements doc secs st)" for secs
    by (simp add: check_images_elements_def Let_def consistent_foldl consistent_image_step)
  have hd: "\<And>st. consistent st \<Longrightarrow> consistent (check_headings_elements doc secs st)" for secs
  proof -
    fix st assume c: "consistent st"
    let ?hs = "querySelectorAll doc sel_headings"
    have "consistent (fst (foldl (heading_step secs) (add_total (length ?hs) st, 0, Some 0) ?hs))"
      by (rule consistent_foldl_heading) (simp add: c)
    then show "consistent (check_headings_elements doc secs st)"
      by (auto simp: check_headings_elements_def Let_def missing_h1_issue_def spec_penalty_simps
            capitalize_content split: prod.splits intro!: consistent_report)
  qed
  have ln: "\<And>st. consistent st \<Longrightarrow> consistent (check_links_elements doc secs st)" for secs
    by (simp add: check_links_elements_def Let_def consistent_foldl consistent_link_step)
  have pa: "\<And>st. consistent st \<Longrightarrow> consistent (check_paragraphs_elements doc secs st)" for secs
    by (simp add: check_paragraphs_elements_def Let_def consistent_foldl consistent_paragraph_step)
  show ?thesis
    unfolding run_element_checks_def Let_def
    by (intro pa ln hd img 2)
qed

subsection \<open>The counters of the element analyzer\<close>

lemma step_counters:
  "analyzedElements (image_step secs st x) = analyzedElements st + 1"
  "totalElements (image_step secs st x) = totalElements st"
  "analyzedElements (link_step secs st x) = analyzedElements st + 1"
  "totalElements (link_step secs st x) = totalElements st"
  "analyzedElements (paragraph_step secs st x) = analyzedElements st + 1"
  "totalElements (paragraph_step secs st x) = totalElements st"
  by (simp_all add: image_step_def link_step_def paragraph_step_def Let_def)

lemma heading_step_counters:
  "analyzedElements (fst (heading_step secs hst x)) = analyzedElements (fst hst) + 1"
  "totalElements (fst (heading_step secs hst x)) = totalElements (fst hst)"
  by (cases hst; simp add: heading_step_def Let_def split: option.splits)+

lemma foldl_counters:
  assumes "\<And>st x. analyzedElements (f st x) = analyzedElements st + 1"
    and "\<And>st x. totalElements (f st x) = totalElements st"
  shows "analyzedElements (foldl f st xs) = analyzedElements st + length xs
         \<and> totalElements (foldl f st xs) = totalElements st"
  using assms by (induction xs arbitrary: st) simp_all

lemma foldl_heading_counters:
  "analyzedElements (fst (foldl (heading_step secs) hst xs)) = analyzedElements (fst hst) + length xs
   \<and> totalElements (fst (foldl (heading_step secs) hst xs)) = totalElements (fst hst)"
  by (induction xs arbitrary: hst) (simp_all add: heading_step_counters)

lemma check_title_element_counters:
  "analyzedElements (check_title_element doc st) = analyzedElements st + 1"
  "totalElements (check_title_element doc st) = totalElements st + 1"
  by (simp_all add: check_title_element_def Let_def split: option.splits)

lemma check_meta_description_element_counters:
  "analyzedElements (check_meta_description_element doc st) = analyzedElements st + 1"
  "totalElements (check_meta_description_element doc st) = totalElements st + 1"
  by (simp_all add: check_meta_description_element_def Let_def split: option.splits)

lemma check_images_elements_counters:
  "analyzedElements (check_images_elements doc secs st) =
     analyzedElements st + length (querySelectorAll doc (sel_tag ''img''))"
  "totalElements (check_images_elements doc secs st) =
     totalElements st + length (querySelectorAll doc (sel_tag ''img''))"
  by (simp_all add: check_images_elements_def Let_def foldl_counters step_counters)

lemma check_links_elements_counters:
  "analyzedElements (check_links_elements doc secs st) =
     analyzedElements st + length (querySelectorAll doc sel_a_href)"
  "totalElements (check_links_elements doc secs st) =
     totalElements st + length (querySelectorAll doc sel_a_href)"
  by (simp_all add: check_links_elements_def Let_def foldl_counters step_counters)

lemma check_paragraphs_elements_counters:
  "analyzedElements (check_paragraphs_elements doc secs st) =
     analyzedElements st + length (querySelectorAll doc (sel_tag ''p''))"
  "totalElements (check_paragraphs_elements doc secs st) =
     totalElements st + length (querySelectorAll doc (sel_tag ''p''))"
  by (simp_all add: check_paragraphs_elements_def Let_def foldl_counters step_counters)

lemma check_headings_elements_counters:
  "analyzedElements (check_headings_elements doc secs st) =
     analyzedElements st + length (querySelectorAll doc sel_headings)"
  "totalElements (check_headings_elements doc secs st) =
     totalElements st + length (querySelectorAll doc sel_headings)"
proof -
  let ?hs = "querySelectorAll doc sel_headings"
  let ?r = "foldl (heading_step secs) (add_total (length ?hs) st, 0, Some 0) ?hs"
  have a: "analyzedElements (fst ?r) = analyzedElements st + length ?hs"
    and t: "totalElements (fst ?r) = totalElements st + length ?hs"
    using foldl_heading_counters[of secs "(add_total (length ?hs) st, 0, Some 0)" ?hs] by simp_all
  show "analyzedElements (check_headings_elements doc secs st) = analyzedElements st + length ?hs"
    using a by (cases ?r) (simp add: check_headings_elements_def Let_def)
  show "totalElements (check_headings_elements doc secs st) = totalElements st + length ?hs"
    using t by (cases ?r) (simp add: check_headings_elements_def Let_def)
qed

lemma run_element_checks_counters:
  "analyzedElements (run_element_checks doc u) = elements_found doc"
  "totalElements (run_element_checks doc u) = elements_found doc"
  by (simp_all add: run_element_checks_def Let_def elements_found_def initial_result_def
        check_title_element_counters check_meta_description_element_counters
        check_images_elements_counters check_headings_elements_counters
        check_links_elements_counters check_paragraphs_elements_counters)

lemma clamp_scores_fields [simp]:
  "analyzedElements (clamp_scores st) = analyzedElements st"
  "totalElements (clamp_scores st) = totalElements st"
  "elementIssues (clamp_scores st) = elementIssues st"
  "url (clamp_scores st) = url st"
  "map name (sectionAnalysis (clamp_scores st)) = map name (sectionAnalysis st)"
  "map importance (sectionAnalysis (clamp_scores st)) = map importance (sectionAnalysis st)"
  "map section_issues (sectionAnalysis (clamp_scores st)) = map section_issues (sectionAnalysis st)"
  "map score (sectionAnalysis (clamp_scores st)) = map (\<lambda>s. max 0 (min 100 (score s))) (sectionAnalysis st)"
  by (simp_all add: clamp_scores_def clamp_score_def o_def)

subsection \<open>The section lists partition the flat list\<close>

lemma capitalizeFirstLetter_total: "capitalizeFirstLetter s \<in> set section_names"
  by (simp add: capitalizeFirstLetter_def section_names_def)

lemma mset_concat_filters:
  "distinct ns \<Longrightarrow>
   mset (concat (map (\<lambda>n. filter (\<lambda>x. f x = n) xs) ns)) = filter_mset (\<lambda>x. f x \<in> set ns) (mset xs)"
proof (induction ns)
  case Nil
  then show ?case by simp
next
  case (Cons n ns)
  then have "n \<notin> set ns" by simp
  then have "filter_mset (\<lambda>x. f x \<in> set (n # ns)) (mset xs)
        = filter_mset (\<lambda>x. f x = n) (mset xs) + filter_mset (\<lambda>x. f x \<in> set ns) (mset xs)"
    by (induction xs) auto
  with Cons show ?case by simp
qed

lemma consistent_section_issues:
  assumes "consistent st"
  shows "map section_issues (sectionAnalysis st)
           = map (\<lambda>n. issues_of_section n (elementIssues st)) section_names"
proof -
  from assms have n: "map name (sectionAnalysis st) = section_names"
    and a: "\<And>s. s \<in> set (sectionAnalysis st) \<Longrightarrow>
              section_issues s = issues_of_section (name s) (elementIssues st)"
    by (simp_all add: consistent_def list_all_iff)
  have "map section_issues (sectionAnalysis st)
          = map (\<lambda>s. issues_of_section (name s) (elementIssues st)) (sectionAnalysis st)"
    using a by simp
  also have "\<dots> = map (\<lambda>n. issues_of_section n (elementIssues st)) (map name (sectionAnalysis st))"
    by (simp add: o_def)
  finally show ?thesis by (simp add: n)
qed

lemma clamp_scores_section_fields:
  "s \<in> set (sectionAnalysis (clamp_scores st)) \<Longrightarrow>
   \<exists>s0 \<in> set (sectionAnalysis st). name s = name s0 \<and> section_issues s = section_issues s0
      \<and> importance s = importance s0 \<and> score s = max 0 (min 100 (score s0))"
  by (auto simp: clamp_scores_def clamp_score_def)

subsection \<open>The issues each phase appends\<close>

lemma appends_refl: "elementIssues st' = elementIssues st \<Longrightarrow> appends Q st st'"
  by (simp add: appends_def)

lemma appends_report: "Q i \<Longrightarrow> elementIssues st' = elementIssues st \<Longrightarrow> appends Q st (report i n p st')"
  by (simp add: appends_def)

lemma appends_trans: "appends Q st st' \<Longrightarrow> appends Q st' st'' \<Longrightarrow> appends Q st st''"
  by (auto simp: appends_def)

lemma appends_foldl:
  assumes "\<And>st x. appends Q st (f st x)"
  shows "appends Q st (foldl f st xs)"
proof (induction xs arbitrary: st)
  case Nil
  show ?case by (simp add: appends_refl)
next
  case (Cons x xs)
  show ?case using appends_trans[OF assms[of st x] Cons[of "f st x"]] by simp
qed

lemma appends_filter:
  "appends Q st st' \<Longrightarrow> (\<And>i. Q i \<Longrightarrow> \<not> P i) \<Longrightarrow>
   filter P (elementIssues st') = filter P (elementIssues st)"
  by (auto simp: appends_def list_all_iff)

lemma appends_check_title_element:
  "appends (\<lambda>i. element i = ''Title''
       \<and> issue i \<in> {''Missing page title'', ''Title is too short'', ''Title is too long''})
     st (check_title_element doc st)"
  by (simp add: appends_def check_title_element_def Let_def title_issue_def split: option.splits)

lemma appends_image_step:
  "appends (\<lambda>i. element i = ''Image'' \<and> issue i = ''Image missing alt text'') st (image_step secs st x)"
  by (simp add: appends_def image_step_def Let_def)

lemma appends_link_step:
  "appends (\<lambda>i. element i = ''Link''
       \<and> issue i \<in> {''Non-descriptive link text'', ''Link missing text content''}) st (link_step secs st x)"
  by (simp add: appends_def link_step_def Let_def)

lemma appends_paragraph_step:
  "appends (\<lambda>i. element i = ''Paragraph'' \<and> issue i = ''Long paragraph (over 300 characters)'') st (paragraph_step secs st x)"
  by (simp add: appends_def paragraph_step_def Let_def)

lemma appends_check_images_elements:
  "appends (\<lambda>i. element i = ''Image'' \<and> issue i = ''Image missing alt text'') st (check_images_elements doc secs st)"
  unfolding check_images_elements_def Let_def
  by (rule appends_trans[OF _ appends_foldl[of _ "image_step secs", OF appends_image_step]])
     (simp add: appends_refl)

lemma appends_check_links_elements:
  "appends (\<lambda>i. element i = ''Link''
       \<and> issue i \<in> {''Non-descriptive link text'', ''Link missing text content''}) st (check_links_elements doc secs st)"
  unfolding check_links_elements_def Let_def
  by (rule appends_trans[OF _ appends_foldl[of _ "link_step secs", OF appends_link_step]])
     (simp add: appends_refl)

lemma appends_check_paragraphs_elements:
  "appends (\<lambda>i. element i = ''Paragraph'' \<and> issue i = ''Long paragraph (over 300 characters)'') st (check_paragraphs_elements doc secs st)"
  unfolding check_paragraphs_elements_def Let_def
  by (rule appends_trans[OF _ appends_foldl[of _ "paragraph_step secs", OF appends_paragraph_step]])
     (simp add: appends_refl)


lemma heading_step_h1Count:
  "fst (snd (heading_step secs (st, c, prev) h)) = (if is_h1 h then c + 1 else c)"
  by (simp add: heading_step_def Let_def is_h1_def)

lemma heading_step_multiple:
  "filter (\<lambda>i. issue i = ''Multiple H1 headings'')
      (elementIssues (fst (heading_step secs (st, c, prev) h)))
   = filter (\<lambda>i. issue i = ''Multiple H1 headings'') (elementIssues st)
       @ (if is_h1 h \<and> c > 0
          then [multiple_h1_issue h (determineSectionForElement h secs)] else [])"
  by (simp add: heading_step_def Let_def is_h1_def multiple_h1_issue_def skipped_level_issue_def
        split: option.splits)

lemma foldl_heading_multiple:
  "filter (\<lambda>i. issue i = ''Multiple H1 headings'')
      (elementIssues (fst (foldl (heading_step secs) (st, c, prev) hs)))
   = filter (\<lambda>i. issue i = ''Multiple H1 headings'') (elementIssues st)
       @ map (\<lambda>h. multiple_h1_issue h (determineSectionForElement h secs))
           (drop (if c = 0 then 1 else 0) (filter is_h1 hs))
   \<and> fst (snd (foldl (heading_step secs) (st, c, prev) hs)) = c + length (filter is_h1 hs)"
proof (induction hs arbitrary: st c prev)
  case Nil
  show ?case by simp
next
  case (Cons h hs)
  obtain st' c' prev' where step: "heading_step secs (st, c, prev) h = (st', c', prev')"
    by (cases "heading_step secs (st, c, prev) h") auto
  have c': "c' = (if is_h1 h then c + 1 else c)"
    using heading_step_h1Count[of secs st c prev h] step by simp
  have f: "filter (\<lambda>i. issue i = ''Multiple H1 headings'') (elementIssues st')
        = filter (\<lambda>i. issue i = ''Multiple H1 headings'') (elementIssues st)
            @ (if is_h1 h \<and> c > 0
               then [multiple_h1_issue h (determineSectionForElement h secs)] else [])"
    using heading_step_multiple[of secs st c prev h] step by simp
  show ?case
    using Cons[of st' c' prev'] by (simp add: step f c')
qed

lemma appends_heading_step:
  "appends (\<lambda>i. take 1 (element i) = ''H'') (fst hst) (fst (heading_step secs hst h))"
  by (cases hst)
     (simp add: appends_def heading_step_def Let_def multiple_h1_issue_def skipped_level_issue_def
        split: option.splits)

lemma appends_foldl_heading:
  "appends (\<lambda>i. take 1 (element i) = ''H'') (fst hst) (fst (foldl (heading_step secs) hst hs))"
proof (induction hs arbitrary: hst)
  case Nil
  show ?case by (simp add: appends_refl)
next
  case (Cons h hs)
  show ?case
    using appends_trans[OF appends_heading_step[of hst secs h] Cons[of "heading_step secs hst h"]]
    by simp
qed

lemma appends_check_headings_elements:
  "appends (\<lambda>i. take 1 (element i) = ''H'') st (check_headings_elements doc secs st)"
proof -
  let ?hs = "querySelectorAll doc sel_headings"
  let ?r = "foldl (heading_step secs) (add_total (length ?hs) st, 0, Some 0) ?hs"
  have "appends (\<lambda>i. take 1 (element i) = ''H'') (add_total (length ?hs) st) (fst ?r)"
    using appends_foldl_heading[of "(add_total (length ?hs) st, 0, Some 0)" secs ?hs] by simp
  then have a: "appends (\<lambda>i. take 1 (element i) = ''H'') st (fst ?r)"
    by (simp add: appends_def)
  show ?thesis
    using a by (cases ?r) (auto simp: check_headings_elements_def Let_def appends_def missing_h1_issue_def)
qed


lemma appends_check_meta_description_element:
  "appends (\<lambda>i. element i = ''Meta Description''
       \<and> issue i \<in> {''Missing meta description'', ''Meta description is too short'',
                      ''Meta description is too long''})
     st (check_meta_description_element doc st)"
  by (simp add: appends_def check_meta_description_element_def Let_def meta_issue_def
        split: option.splits)

lemma matches_sel_tag: "matches q e (sel_tag t) = (localName (snd e) = t)"
  by (simp add: matches_def sel_tag_def)

lemma matches_sel_headings:
  "matches q e sel_headings = (localName (snd e) \<in> {''h1'', ''h2'', ''h3'', ''h4'', ''h5'', ''h6''})"
  by (auto simp: matches_def sel_headings_def)

lemma is_h1_heading: "matches q e sel_headings \<Longrightarrow> is_h1 e = matches q e (sel_tag ''h1'')"
  by (auto simp: matches_sel_headings matches_sel_tag is_h1_def tagName_def ascii_upper_def
        parseInt_def isDigit_def isWhiteSpace_def Let_def)

lemma filter_is_h1_headings:
  "filter is_h1 (querySelectorAll doc sel_headings) = querySelectorAll doc (sel_tag ''h1'')"
proof -
  have "filter is_h1 (querySelectorAll doc sel_headings)
          = filter (\<lambda>e. matches (quirksMode doc) e sel_headings \<and> is_h1 e) (all_elements doc)"
    by (simp add: querySelectorAll_def conj_commute)
  also have "\<dots> = filter (\<lambda>e. matches (quirksMode doc) e (sel_tag ''h1'')) (all_elements doc)"
    by (rule filter_cong) (auto simp: is_h1_heading matches_sel_headings matches_sel_tag)
  finally show ?thesis by (simp add: querySelectorAll_def)
qed

subsection \<open>Scores and the issues on a second \<open>h1\<close>\<close>

lemma analyzePageElements_sections:
  assumes "s \<in> set (sectionAnalysis (analyzePageElements doc u))"
  shows "section_issues s = issues_of_section (name s) (elementIssues (analyzePageElements doc u))
         \<and> score s = max 0 (min 100 (100 - sum_list (map spec_penalty (section_issues s))))"
proof -
  let ?st = "run_element_checks doc u"
  have c: "consistent ?st" by (rule consistent_run_element_checks)
  from assms obtain s0 where s0: "s0 \<in> set (sectionAnalysis ?st)"
    and eq: "name s = name s0" "section_issues s = section_issues s0"
      "score s = max 0 (min 100 (score s0))"
    unfolding analyzePageElements_def by (blast dest: clamp_scores_section_fields)
  from c s0 have "section_issues s0 = issues_of_section (name s0) (elementIssues ?st)"
    and "score s0 = 100 - sum_list (map spec_penalty (section_issues s0))"
    by (simp_all add: consistent_def list_all_iff)
  with eq show ?thesis by (simp add: analyzePageElements_def)
qed

lemma sum_list_filter_split:
  "sum_list (map f xs) = sum_list (map f (filter P xs)) + sum_list (map f (filter (\<lambda>x. \<not> P x) xs))"
  for f :: "'a \<Rightarrow> int"
  by (induction xs) simp_all

lemma check_headings_elements_multiple:
  "filter (\<lambda>i. issue i = ''Multiple H1 headings'') (elementIssues (check_headings_elements doc secs st))
   = filter (\<lambda>i. issue i = ''Multiple H1 headings'') (elementIssues st)
       @ map (\<lambda>h. multiple_h1_issue h (determineSectionForElement h secs))
           (drop 1 (querySelectorAll doc (sel_tag ''h1'')))"
proof -
  let ?hs = "querySelectorAll doc sel_headings"
  let ?r = "foldl (heading_step secs) (add_total (length ?hs) st, 0, Some 0) ?hs"
  have "filter (\<lambda>i. issue i = ''Multiple H1 headings'') (elementIssues (fst ?r))
   = filter (\<lambda>i. issue i = ''Multiple H1 headings'') (elementIssues st)
       @ map (\<lambda>h. multiple_h1_issue h (determineSectionForElement h secs))
           (drop 1 (querySelectorAll doc (sel_tag ''h1'')))"
    using foldl_heading_multiple[of secs "add_total (length ?hs) st" 0 "Some 0" ?hs]
    by (simp add: filter_is_h1_headings)
  then show ?thesis
    by (cases ?r) (simp add: check_headings_elements_def Let_def missing_h1_issue_def)
qed

lemma run_element_checks_multiple:
  "filter (\<lambda>i. issue i = ''Multiple H1 headings'') (elementIssues (run_element_checks doc u))
   = map (\<lambda>h. multiple_h1_issue h (determineSectionForElement h (resolve_sections doc)))
       (drop 1 (querySelectorAll doc (sel_tag ''h1'')))"
proof -
  let ?P = "\<lambda>i. issue i = ''Multiple H1 headings''"
  let ?secs = "resolve_sections doc"
  let ?st1 = "check_title_element doc (initial_result u)"
  let ?st2 = "check_meta_description_element doc ?st1"
  let ?st3 = "check_images_elements doc ?secs ?st2"
  let ?st4 = "check_headings_elements doc ?secs ?st3"
  let ?st5 = "check_links_elements doc ?secs ?st4"
  let ?st6 = "check_paragraphs_elements doc ?secs ?st5"
  have "filter ?P (elementIssues ?st1) = filter ?P (elementIssues (initial_result u))"
    by (rule appends_filter[OF appends_check_title_element]) auto
  then have 1: "filter ?P (elementIssues ?st1) = []"
    by (simp add: initial_result_def)
  have 2: "filter ?P (elementIssues ?st2) = filter ?P (elementIssues ?st1)"
    by (rule appends_filter[OF appends_check_meta_description_element]) auto
  have 3: "filter ?P (elementIssues ?st3) = filter ?P (elementIssues ?st2)"
    by (rule appends_filter[OF appends_check_images_elements]) auto
  have 5: "filter ?P (elementIssues ?st5) = filter ?P (elementIssues ?st4)"
    by (rule appends_filter[OF appends_check_links_elements]) auto
  have 6: "filter ?P (elementIssues ?st6) = filter ?P (elementIssues ?st5)"
    by (rule appends_filter[OF appends_check_paragraphs_elements]) auto
  have "filter ?P (elementIssues ?st6)
      = map (\<lambda>h. multiple_h1_issue h (determineSectionForElement h ?secs))
          (drop 1 (querySelectorAll doc (sel_tag ''h1'')))"
    unfolding 6 5 check_headings_elements_multiple 3 2 1 by simp
  then show ?thesis
    by (simp add: run_element_checks_def Let_def)
qed

subsection \<open>The issues on the meta description\<close>

lemma check_meta_description_element_issues:
  assumes "querySelector doc (sel_meta_name ''description'') = Some m"
    and "getAttribute m ''content'' = Some c"
  shows "map (\<lambda>i. (issue i, issue_severity i))
           (filter (\<lambda>i. element i = ''Meta Description'')
              (elementIssues (check_meta_description_element doc st)))
         = map (\<lambda>i. (issue i, issue_severity i))
             (filter (\<lambda>i. element i = ''Meta Description'') (elementIssues st))
           @ (if length c = 0 then [(''Missing meta description'', high)]
              else if length c < 70 then [(''Meta description is too short'', medium)]
              else if length c > 160 then [(''Meta description is too long'', low)]
              else [])"
  using assms
  by (simp add: check_meta_description_element_def Let_def meta_issue_def)

lemma doc_meta_description:
  "querySelector (doc_meta n) (sel_meta_name ''description'')
     = Some ([0, 0, 1], Element ''meta'' [(''name'', ''description''), (''content'', replicate n CHR ''a'')] [])"
  by (simp add: doc_meta_def querySelector_def querySelectorAll_def all_elements_def
        matches_def sel_meta_name_def getAttribute_def)

lemma doc_meta_content:
  "getAttribute ([0, 0, 1], Element ''meta'' [(''name'', ''description''), (''content'', replicate n CHR ''a'')] []) ''content''
     = Some (replicate n CHR ''a'')"
  by (simp add: getAttribute_def)

subsection \<open>The document analyzer: checks, images and links\<close>

lemma numbered_adds:
  "numbered st fs \<Longrightarrow> adds st x st' \<Longrightarrow> numbered st' (fs @ (case x of None \<Rightarrow> [] | Some y \<Rightarrow> [y]))"
  by (cases st) (auto simp: numbered_def adds_def push_def findings_def split: option.splits)

lemma numbered_initial: "numbered ([], 1) []"
  by (simp add: numbered_def findings_def)

lemma adds_check_title: "adds st (spec_check_title t) (check_title t st)"
  by (simp add: adds_def spec_check_title_def check_title_def) blast

lemma adds_check_metaDescription:
  "adds st (spec_check_meta_description d) (check_metaDescription d st)"
  by (simp add: adds_def spec_check_meta_description_def check_metaDescription_def) blast

lemma adds_check_h1: "adds st (spec_check_h1_count n) (check_h1 n st)"
  by (simp add: adds_def spec_check_h1_count_def check_h1_def) blast

lemma adds_check_h2_without_h1:
  "adds st (spec_check_h2_without_h1 n1 n2) (check_h2_without_h1 n1 n2 st)"
  by (simp add: adds_def spec_check_h2_without_h1_def check_h2_without_h1_def) blast

lemma adds_check_h3_without_h2:
  "adds st (spec_check_h3_without_h2 n2 n3) (check_h3_without_h2 n2 n3 st)"
  by (simp add: adds_def spec_check_h3_without_h2_def check_h3_without_h2_def) blast

lemma adds_check_images:
  "adds st (spec_check_images_alt (images_total imgs) (withoutAlt imgs)) (check_images imgs st)"
  by (simp add: adds_def spec_check_images_alt_def check_images_def) blast

lemma adds_check_links: "adds st (spec_check_link_text n) (check_links n st)"
  by (simp add: adds_def spec_check_link_text_def check_links_def) blast

lemma adds_check_viewport: "adds st (spec_check_viewport b) (check_viewport b st)"
  by (simp add: adds_def spec_check_viewport_def check_viewport_def) blast

lemma adds_check_structured_data:
  "adds st (spec_check_structured_data b) (check_structured_data b st)"
  by (simp add: adds_def spec_check_structured_data_def check_structured_data_def) blast

lemma run_checks_numbered:
  "numbered (run_checks doc) (List.map_filter (\<lambda>x. x) (checks_on_extraction doc))"
proof -
  let ?hs = "extract_headings doc"
  let ?st1 = "check_title (extract_title doc) ([], 1)"
  let ?st2 = "check_metaDescription (content_of doc (sel_meta_name ''description'')) ?st1"
  let ?st3 = "check_h1 (h1 ?hs) ?st2"
  let ?st4 = "check_h2_without_h1 (h1 ?hs) (h2 ?hs) ?st3"
  let ?st5 = "check_h3_without_h2 (h2 ?hs) (h3 ?hs) ?st4"
  let ?st6 = "check_images (extract_images doc) ?st5"
  let ?st7 = "check_links (linksWithoutText (querySelectorAll doc sel_a_href)) ?st6"
  let ?st8 = "check_viewport (querySelector doc (sel_meta_name ''viewport'') \<noteq> None) ?st7"
  let ?st9 = "check_structured_data (hasStructuredData doc) ?st8"
  let ?o = "\<lambda>x::finding option. case x of None \<Rightarrow> [] | Some y \<Rightarrow> [y]"
  let ?c1 = "spec_check_title (extract_title doc)"
  let ?c2 = "spec_check_meta_description (content_of doc (sel_meta_name ''description''))"
  let ?c3 = "spec_check_h1_count (h1 ?hs)"
  let ?c4 = "spec_check_h2_without_h1 (h1 ?hs) (h2 ?hs)"
  let ?c5 = "spec_check_h3_without_h2 (h2 ?hs) (h3 ?hs)"
  let ?c6 = "spec_check_images_alt (images_total (extract_images doc)) (withoutAlt (extract_images doc))"
  let ?c7 = "spec_check_link_text (linksWithoutText (querySelectorAll doc sel_a_href))"
  let ?c8 = "spec_check_viewport (querySelector doc (sel_meta_name ''viewport'') \<noteq> None)"
  let ?c9 = "spec_check_structured_data (hasStructuredData doc)"
  have n1: "numbered ?st1 ([] @ ?o ?c1)"
    by (rule numbered_adds[OF numbered_initial adds_check_title])
  have n2: "numbered ?st2 (([] @ ?o ?c1) @ ?o ?c2)"
    by (rule numbered_adds[OF n1 adds_check_metaDescription])
  have n3: "numbered ?st3 ((([] @ ?o ?c1) @ ?o ?c2) @ ?o ?c3)"
    by (rule numbered_adds[OF n2 adds_check_h1])
  have n4: "numbered ?st4 (((([] @ ?o ?c1) @ ?o ?c2) @ ?o ?c3) @ ?o ?c4)"
    by (rule numbered_adds[OF n3 adds_check_h2_without_h1])
  have n5: "numbered ?st5 ((((([] @ ?o ?c1) @ ?o ?c2) @ ?o ?c3) @ ?o ?c4) @ ?o ?c5)"
    by (rule numbered_adds[OF n4 adds_check_h3_without_h2])
  have n6: "numbered ?st6 (((((([] @ ?o ?c1) @ ?o ?c2) @ ?o ?c3) @ ?o ?c4) @ ?o ?c5) @ ?o ?c6)"
    by (rule numbered_adds[OF n5 adds_check_images])
  have n7: "numbered ?st7
      ((((((([] @ ?o ?c1) @ ?o ?c2) @ ?o ?c3) @ ?o ?c4) @ ?o ?c5) @ ?o ?c6) @ ?o ?c7)"
    by (rule numbered_adds[OF n6 adds_check_links])
  have n8: "numbered ?st8
      (((((((([] @ ?o ?c1) @ ?o ?c2) @ ?o ?c3) @ ?o ?c4) @ ?o ?c5) @ ?o ?c6) @ ?o ?c7) @ ?o ?c8)"
    by (rule numbered_adds[OF n7 adds_check_viewport])
  have n9: "numbered ?st9
      ((((((((([] @ ?o ?c1) @ ?o ?c2) @ ?o ?c3) @ ?o ?c4) @ ?o ?c5) @ ?o ?c6) @ ?o ?c7) @ ?o ?c8)
         @ ?o ?c9)"
    by (rule numbered_adds[OF n8 adds_check_structured_data])
  have "List.map_filter (\<lambda>x. x) (checks_on_extraction doc)
      = ((((((((([] @ ?o ?c1) @ ?o ?c2) @ ?o ?c3) @ ?o ?c4) @ ?o ?c5) @ ?o ?c6) @ ?o ?c7) @ ?o ?c8)
         @ ?o ?c9)"
    by (simp add: checks_on_extraction_def List.map_filter_simps extract_headings_def split: option.splits)
  with n9 have "numbered ?st9 (List.map_filter (\<lambda>x. x) (checks_on_extraction doc))"
    by simp
  then show ?thesis
    by (simp add: run_checks_def Let_def)
qed

lemma analyzeHtmlContent_issues:
  "analyzeHtmlContent hostname_of doc u = Inr r \<Longrightarrow> issues r = fst (run_checks doc)"
  by (auto simp: analyzeHtmlContent_def Let_def split: sum.splits)

lemma querySelectorAll_img_with_alt:
  "querySelectorAll doc sel_img_with_alt
     = filter (\<lambda>e. hasAttribute e ''alt'' \<and> getAttribute e ''alt'' \<noteq> Some [])
         (querySelectorAll doc (sel_tag ''img''))"
  unfolding querySelectorAll_def filter_filter
  by (rule filter_cong)
     (auto simp: matches_def sel_img_with_alt_def sel_tag_def hasAttribute_def split: option.splits)

lemma querySelectorAll_img_empty_alt:
  "querySelectorAll doc sel_img_empty_alt
     = filter (\<lambda>e. getAttribute e ''alt'' = Some []) (querySelectorAll doc (sel_tag ''img''))"
  unfolding querySelectorAll_def filter_filter
  by (rule filter_cong)
     (auto simp: matches_def sel_img_empty_alt_def sel_tag_def split: option.splits)

lemma length_three_filters:
  assumes "\<And>x. x \<in> set xs \<Longrightarrow> (A x \<and> \<not> B x \<and> \<not> C x) \<or> (\<not> A x \<and> B x \<and> \<not> C x) \<or> (\<not> A x \<and> \<not> B x \<and> C x)"
  shows "length xs = length (filter A xs) + length (filter B xs) + length (filter C xs)"
  using assms by (induction xs) auto

lemma withoutAlt_count:
  "withoutAlt (extract_images doc)
     = int (length (filter (\<lambda>e. \<not> hasAttribute e ''alt'') (querySelectorAll doc (sel_tag ''img''))))"
proof -
  let ?imgs = "querySelectorAll doc (sel_tag ''img'')"
  have "length ?imgs
      = length (filter (\<lambda>e. hasAttribute e ''alt'' \<and> getAttribute e ''alt'' \<noteq> Some []) ?imgs)
        + length (filter (\<lambda>e. getAttribute e ''alt'' = Some []) ?imgs)
        + length (filter (\<lambda>e. \<not> hasAttribute e ''alt'') ?imgs)"
    by (rule length_three_filters) (auto simp: hasAttribute_def)
  then show ?thesis
    by (simp add: extract_images_def Let_def querySelectorAll_img_with_alt
          querySelectorAll_img_empty_alt)
qed

lemma count_links_returns:
  "u = [] \<or> hostname_of u \<noteq> None \<Longrightarrow> \<exists>i e. count_links hostname_of u ls acc = Inr (i, e)"
proof (induction ls arbitrary: acc)
  case Nil
  then show ?case by (cases acc) simp
next
  case (Cons l ls)
  obtain i e where acc: "acc = (i, e)" by (cases acc)
  from Cons.prems have "\<exists>c. classify_link hostname_of u (href_of l) = Inr c"
    by (auto simp: classify_link_def)
  then obtain c where c: "classify_link hostname_of u (href_of l) = Inr c" ..
  show ?case
    using Cons.IH[OF Cons.prems] by (cases c) (simp_all add: acc c)
qed

lemma analyzeHtmlContent_returns:
  "u = [] \<or> hostname_of u \<noteq> None \<Longrightarrow> \<exists>r. analyzeHtmlContent hostname_of doc u = Inr r"
proof -
  assume "u = [] \<or> hostname_of u \<noteq> None"
  from count_links_returns[of u hostname_of, OF this]
  obtain i e where "count_links hostname_of u (querySelectorAll doc sel_a_href) (0, 0) = Inr (i, e)"
    by blast
  then show ?thesis
    by (simp add: analyzeHtmlContent_def Let_def)
qed

lemma startsWith_prefix: "startsWith s p = prefix p s"
  by (metis startsWith_def prefix_def append_eq_conv_conj)

lemma str_includes_sublist: "str_includes s p = sublist p s"
  by (induction s) (simp_all add: startsWith_prefix sublist_Cons_right)

lemma classify_link_spec:
  assumes "classify_link hostname_of u href = Inr c"
  shows "(c = Internal) = spec_internal hostname_of u href"
    and "(c = External) = spec_external hostname_of u href"
  using assms
  by (auto simp: classify_link_def spec_internal_def spec_external_def
        split: if_splits option.splits)

lemma count_links_spec:
  "count_links hostname_of u ls (i, e) = Inr (i', e') \<Longrightarrow>
   i' = i + length (filter (\<lambda>l. spec_internal hostname_of u (href_of l)) ls)
   \<and> e' = e + length (filter (\<lambda>l. spec_external hostname_of u (href_of l)) ls)"
proof (induction ls arbitrary: i e)
  case Nil
  then show ?case by simp
next
  case (Cons l ls)
  from Cons.prems obtain c where c: "classify_link hostname_of u (href_of l) = Inr c"
    by (cases "classify_link hostname_of u (href_of l)") auto
  note sp = classify_link_spec[OF c]
  show ?case
  proof (cases c)
    case Internal
    with Cons.prems c have "count_links hostname_of u ls (i + 1, e) = Inr (i', e')" by simp
    from Cons.IH[OF this] sp Internal show ?thesis by simp
  next
    case External
    with Cons.prems c have "count_links hostname_of u ls (i, e + 1) = Inr (i', e')" by simp
    from Cons.IH[OF this] sp External show ?thesis by simp
  next
    case Neither
    with Cons.prems c have "count_links hostname_of u ls (i, e) = Inr (i', e')" by simp
    from Cons.IH[OF this] sp Neither show ?thesis by simp
  qed
qed

lemma length_filter_three:
  "length (filter A xs) + length (filter (\<lambda>x. B x \<and> \<not> A x) xs)
     + length (filter (\<lambda>x. \<not> A x \<and> \<not> B x) xs) = length xs"
  by (induction xs) auto

subsection \<open>What the checks of the document analyzer look at\<close>

lemma find_filter: "List.find P xs = (case filter P xs of [] \<Rightarrow> None | x # rest \<Rightarrow> Some x)"
  by (induction xs) simp_all

lemma querySelector_find:
  "querySelector doc sel = List.find (\<lambda>e. matches (quirksMode doc) e sel) (all_elements doc)"
  by (simp add: querySelector_def querySelectorAll_def find_filter)

lemma matches_sel_meta_name: "matches q e (sel_meta_name n) = spec_meta_named n e"
  by (auto simp: matches_def sel_meta_name_def spec_meta_named_def split: option.splits)

lemma extract_title_spec: "extract_title doc = spec_title doc"
  by (simp add: extract_title_def spec_title_def querySelector_find matches_sel_tag spec_is_def[abs_def])

lemma content_of_description_spec:
  "content_of doc (sel_meta_name ''description'') = spec_meta_description doc"
  by (simp add: content_of_def spec_meta_description_def querySelector_find
        matches_sel_meta_name[abs_def])

lemma count_tag_spec: "length (querySelectorAll doc (sel_tag t)) = spec_count doc (spec_is t)"
  by (simp add: querySelectorAll_def matches_sel_tag spec_count_def spec_is_def[abs_def])

lemma withoutAlt_spec: "withoutAlt (extract_images doc) = int (spec_count doc spec_image_without_alt)"
proof -
  have "filter (\<lambda>e. \<not> hasAttribute e ''alt'') (querySelectorAll doc (sel_tag ''img''))
      = filter spec_image_without_alt (all_elements doc)"
    unfolding querySelectorAll_def filter_filter
    by (rule filter_cong) (auto simp: matches_sel_tag spec_image_without_alt_def hasAttribute_def)
  then show ?thesis
    by (simp add: withoutAlt_count spec_count_def)
qed

lemma images_total_spec: "images_total (extract_images doc) = spec_count doc (spec_is ''img'')"
  by (simp add: extract_images_def Let_def count_tag_spec)

lemma matches_sel_a_href:
  "matches q e sel_a_href = (localName (snd e) = ''a'' \<and> getAttribute e ''href'' \<noteq> None)"
  by (auto simp: matches_def sel_a_href_def hasAttribute_def)

lemma linksWithoutText_spec:
  "linksWithoutText (querySelectorAll doc sel_a_href) = spec_count doc spec_link_without_text"
proof -
  have "filter (\<lambda>link. trim (textContent link) = []) (querySelectorAll doc sel_a_href)
      = filter spec_link_without_text (all_elements doc)"
    unfolding querySelectorAll_def filter_filter
    by (rule filter_cong) (auto simp: matches_sel_a_href spec_link_without_text_def)
  then show ?thesis
    by (simp add: linksWithoutText_def spec_count_def)
qed

lemma find_None_list_ex: "(List.find P xs \<noteq> None) = list_ex P xs"
  by (induction xs) simp_all

lemma viewport_spec:
  "(querySelector doc (sel_meta_name ''viewport'') \<noteq> None) = spec_has_viewport doc"
  unfolding querySelector_find matches_sel_meta_name spec_has_viewport_def
  by (rule find_None_list_ex)

lemma lower_ld_json: "toLowerCase ''application/ld+json'' = ''application/ld+json''"
  by code_simp

lemma matches_sel_ld_json:
  "matches q e sel_ld_json
     = (localName (snd e) = ''script''
        \<and> (case getAttribute e ''type'' of
              None \<Rightarrow> False | Some t \<Rightarrow> toLowerCase t = ''application/ld+json''))"
  by (auto simp: matches_def sel_ld_json_def lower_ld_json split: option.splits)

lemma matches_sel_microdata:
  "matches q e sel_microdata
     = (getAttribute e ''itemscope'' \<noteq> None \<or> getAttribute e ''itemprop'' \<noteq> None)"
  by (auto simp: matches_def sel_microdata_def hasAttribute_def)

lemma hasStructuredData_spec: "hasStructuredData doc = spec_has_structured_data doc"
proof -
  have a: "(querySelector doc sel_ld_json \<noteq> None)
      = list_ex (\<lambda>e. matches (quirksMode doc) e sel_ld_json) (all_elements doc)"
    unfolding querySelector_find by (rule find_None_list_ex)
  have b: "(length (querySelectorAll doc sel_microdata) > 0)
      = list_ex (\<lambda>e. matches (quirksMode doc) e sel_microdata) (all_elements doc)"
    by (auto simp: querySelectorAll_def list_ex_iff filter_empty_conv)
  show ?thesis
    unfolding hasStructuredData_def a b spec_has_structured_data_def
    by (auto simp: list_ex_iff matches_sel_ld_json matches_sel_microdata spec_structured_def)
qed

lemma checks_on_extraction_spec: "checks_on_extraction doc = spec_checks doc"
  by (simp only: checks_on_extraction_def spec_checks_def extract_title_spec
        content_of_description_spec count_tag_spec withoutAlt_spec images_total_spec
        linksWithoutText_spec viewport_spec hasStructuredData_spec)

subsection \<open>Containment in the tree and section attribution\<close>

lemma descendants_prefix:
  "x \<in> set (descendants p n) \<Longrightarrow> prefix p (fst x)"
  "x \<in> set (descendants_list p i cs) \<Longrightarrow> \<exists>j. i \<le> j \<and> prefix (p @ [j]) (fst x)"
proof (induction p n and p i cs arbitrary: x and x rule: descendants_descendants_list.induct)
  case (1 p s)
  then show ?case by simp
next
  case (2 p n as cs)
  show ?case
  proof (cases "x = (p, Element n as cs)")
    case True
    then show ?thesis by simp
  next
    case False
    with "2.prems" have "x \<in> set (descendants_list p 0 cs)" by simp
    from "2.IH"[OF this] obtain j where "prefix (p @ [j]) (fst x)" by blast
    then show ?thesis by (meson append_prefixD)
  qed
next
  case (3 p i)
  then show ?case by simp
next
  case (4 p i c cs)
  from "4.prems" consider "x \<in> set (descendants (p @ [i]) c)" | "x \<in> set (descendants_list p (Suc i) cs)"
    by auto
  then show ?case
  proof cases
    case 1
    from "4.IH"(1)[OF this] show ?thesis by blast
  next
    case 2
    from "4.IH"(2)[OF this] obtain j where "Suc i \<le> j" "prefix (p @ [j]) (fst x)" by blast
    then show ?thesis by (meson Suc_leD)
  qed
qed

lemma prefix_snoc_same: "prefix (p @ [i]) q \<Longrightarrow> prefix (p @ [j]) q \<Longrightarrow> i = j"
  by (auto simp: prefix_def)

lemma descendants_closed:
  "a \<in> set (descendants p n) \<Longrightarrow> b \<in> set (descendants p n) \<Longrightarrow> prefix (fst a) (fst b)
     \<Longrightarrow> b \<in> set (descendants (fst a) (snd a))"
  "a \<in> set (descendants_list p i cs) \<Longrightarrow> b \<in> set (descendants_list p i cs) \<Longrightarrow> prefix (fst a) (fst b)
     \<Longrightarrow> b \<in> set (descendants (fst a) (snd a))"
proof (induction p n and p i cs arbitrary: a b and a b rule: descendants_descendants_list.induct)
  case (1 p s)
  then show ?case by simp
next
  case (2 p n as cs)
  show ?case
  proof (cases "a = (p, Element n as cs)")
    case True
    with "2.prems"(2) show ?thesis by simp
  next
    case False
    with "2.prems"(1) have a: "a \<in> set (descendants_list p 0 cs)" by simp
    from descendants_prefix(2)[OF a] obtain j where j: "prefix (p @ [j]) (fst a)" by blast
    show ?thesis
    proof (cases "b = (p, Element n as cs)")
      case True
      with "2.prems"(3) have "prefix (fst a) p" by simp
      with j have "prefix (p @ [j]) p" by (rule prefix_order.trans)
      then show ?thesis by (auto simp: prefix_def)
    next
      case False
      with "2.prems"(2) have "b \<in> set (descendants_list p 0 cs)" by simp
      from "2.IH"[OF a this "2.prems"(3)] show ?thesis .
    qed
  qed
next
  case (3 p i)
  then show ?case by simp
next
  case (4 p i c cs)
  from "4.prems"(1) consider (a1) "a \<in> set (descendants (p @ [i]) c)"
    | (a2) "a \<in> set (descendants_list p (Suc i) cs)" by auto
  then show ?case
  proof cases
    case a1
    from "4.prems"(2) consider (b1) "b \<in> set (descendants (p @ [i]) c)"
      | (b2) "b \<in> set (descendants_list p (Suc i) cs)" by auto
    then show ?thesis
    proof cases
      case b1
      from "4.IH"(1)[OF a1 b1 "4.prems"(3)] show ?thesis .
    next
      case b2
      from descendants_prefix(1)[OF a1] "4.prems"(3) have "prefix (p @ [i]) (fst b)"
        by (meson prefix_order.trans)
      moreover from descendants_prefix(2)[OF b2] obtain j where "Suc i \<le> j" "prefix (p @ [j]) (fst b)"
        by blast
      ultimately show ?thesis using prefix_snoc_same by fastforce
    qed
  next
    case a2
    from "4.prems"(2) consider (b1) "b \<in> set (descendants (p @ [i]) c)"
      | (b2) "b \<in> set (descendants_list p (Suc i) cs)" by auto
    then show ?thesis
    proof cases
      case b1
      from descendants_prefix(2)[OF a2] obtain j where j: "Suc i \<le> j" "prefix (p @ [j]) (fst a)"
        by blast
      with "4.prems"(3) have "prefix (p @ [j]) (fst b)" by (meson prefix_order.trans)
      moreover from descendants_prefix(1)[OF b1] have "prefix (p @ [i]) (fst b)" .
      ultimately show ?thesis using prefix_snoc_same j(1) by fastforce
    next
      case b2
      from "4.IH"(2)[OF a2 b2 "4.prems"(3)] show ?thesis .
    qed
  qed
qed

lemma contains_descendants:
  assumes "a \<in> set (all_elements doc)" and "b \<in> set (all_elements doc)"
  shows "contains a b = (b \<in> set (descendants (fst a) (snd a)))"
proof
  assume "contains a b"
  then show "b \<in> set (descendants (fst a) (snd a))"
    using assms descendants_closed(2)[of a "[]" 0 "childNodes_of doc" b]
    by (simp add: contains_def all_elements_def)
next
  assume "b \<in> set (descendants (fst a) (snd a))"
  from descendants_prefix(1)[OF this] show "contains a b"
    by (simp add: contains_def)
qed

lemma trim_Nil: "trim [] = []"
  by (simp add: trim_def)

lemma sections_of_image_step:
  "sections_of ''Image'' (image_step secs st x)
     = sections_of ''Image'' st
         @ (if \<not> hasAttribute x ''alt'' then [determineSectionForElement x secs] else [])"
  by (simp add: sections_of_def image_step_def Let_def)

lemma sections_of_link_step:
  "sections_of ''Link'' (link_step secs st x)
     = sections_of ''Link'' st
         @ (if spec_bad_link_text (textContent x) then [determineSectionForElement x secs] else [])"
  by (auto simp: sections_of_def link_step_def Let_def spec_bad_link_text_def trim_Nil)

lemma sections_of_paragraph_step:
  "sections_of ''Paragraph'' (paragraph_step secs st x)
     = sections_of ''Paragraph'' st
         @ (if length (textContent x) > 300 then [determineSectionForElement x secs] else [])"
  by (auto simp: sections_of_def paragraph_step_def Let_def)

lemma sections_of_foldl:
  assumes "\<And>st x. sections_of what (step st x) = sections_of what st @ (if cond x then [val x] else [])"
  shows "sections_of what (foldl step st xs) = sections_of what st @ map val (filter cond xs)"
  by (induction xs arbitrary: st) (simp_all add: assms)

lemma sections_of_add_total [simp]: "sections_of what (add_total k st) = sections_of what st"
  by (simp add: sections_of_def)

lemma sections_of_appends:
  "appends Q st st' \<Longrightarrow> (\<And>i. Q i \<Longrightarrow> element i \<noteq> what) \<Longrightarrow>
   sections_of what st' = sections_of what st"
  unfolding sections_of_def by (simp add: appends_filter)

lemma sections_of_images:
  "sections_of ''Image'' (check_images_elements doc secs st)
     = sections_of ''Image'' st
         @ map (\<lambda>e. determineSectionForElement e secs)
             (filter (\<lambda>e. \<not> hasAttribute e ''alt'') (querySelectorAll doc (sel_tag ''img'')))"
  unfolding check_images_elements_def Let_def
  by (simp add: sections_of_foldl[of _ "image_step secs", OF sections_of_image_step])

lemma sections_of_links:
  "sections_of ''Link'' (check_links_elements doc secs st)
     = sections_of ''Link'' st
         @ map (\<lambda>e. determineSectionForElement e secs)
             (filter (\<lambda>e. spec_bad_link_text (textContent e)) (querySelectorAll doc sel_a_href))"
  unfolding check_links_elements_def Let_def
  by (simp add: sections_of_foldl[of _ "link_step secs", OF sections_of_link_step])

lemma sections_of_paragraphs:
  "sections_of ''Paragraph'' (check_paragraphs_elements doc secs st)
     = sections_of ''Paragraph'' st
         @ map (\<lambda>e. determineSectionForElement e secs)
             (filter (\<lambda>e. length (textContent e) > 300) (querySelectorAll doc (sel_tag ''p'')))"
  unfolding check_paragraphs_elements_def Let_def
  by (simp add: sections_of_foldl[of _ "paragraph_step secs", OF sections_of_paragraph_step])

lemma sections_of_analyzePageElements:
  "sections_of ''Image'' (analyzePageElements doc u)
     = map (\<lambda>e. determineSectionForElement e (resolve_sections doc))
         (filter (\<lambda>e. \<not> hasAttribute e ''alt'') (querySelectorAll doc (sel_tag ''img'')))"
  "sections_of ''Link'' (analyzePageElements doc u)
     = map (\<lambda>e. determineSectionForElement e (resolve_sections doc))
         (filter (\<lambda>e. spec_bad_link_text (textContent e)) (querySelectorAll doc sel_a_href))"
  "sections_of ''Paragraph'' (analyzePageElements doc u)
     = map (\<lambda>e. determineSectionForElement e (resolve_sections doc))
         (filter (\<lambda>e. length (textContent e) > 300) (querySelectorAll doc (sel_tag ''p'')))"
proof -
  let ?secs = "resolve_sections doc"
  let ?st1 = "check_title_element doc (initial_result u)"
  let ?st2 = "check_meta_description_element doc ?st1"
  let ?st3 = "check_images_elements doc ?secs ?st2"
  let ?st4 = "check_headings_elements doc ?secs ?st3"
  let ?st5 = "check_links_elements doc ?secs ?st4"
  let ?st6 = "check_paragraphs_elements doc ?secs ?st5"
  have r: "sections_of what (analyzePageElements doc u) = sections_of what ?st6" for what
    by (simp add: sections_of_def analyzePageElements_def run_element_checks_def Let_def)
  have 0: "sections_of what (initial_result u) = []" for what
    by (simp add: sections_of_def initial_result_def)
  have 1: "sections_of what ?st1 = []" if "what \<noteq> ''Title''" for what
    using sections_of_appends[OF appends_check_title_element, of what doc "initial_result u"] that
    by (simp add: 0)
  have 2: "sections_of what ?st2 = sections_of what ?st1" if "what \<noteq> ''Meta Description''" for what
    using sections_of_appends[OF appends_check_meta_description_element, of what doc ?st1] that
    by simp
  have 3: "sections_of what ?st3 = sections_of what ?st2" if "what \<noteq> ''Image''" for what
    using sections_of_appends[OF appends_check_images_elements, of what doc ?secs ?st2] that
    by simp
  have 4: "sections_of what ?st4 = sections_of what ?st3" if "take 1 what \<noteq> ''H''" for what
    using sections_of_appends[OF appends_check_headings_elements, of what doc ?secs ?st3] that
    by auto
  have 5: "sections_of what ?st5 = sections_of what ?st4" if "what \<noteq> ''Link''" for what
    using sections_of_appends[OF appends_check_links_elements, of what doc ?secs ?st4] that
    by simp
  have 6: "sections_of what ?st6 = sections_of what ?st5" if "what \<noteq> ''Paragraph''" for what
    using sections_of_appends[OF appends_check_paragraphs_elements, of what doc ?secs ?st5] that
    by simp
  show "sections_of ''Image'' (analyzePageElements doc u)
     = map (\<lambda>e. determineSectionForElement e ?secs)
         (filter (\<lambda>e. \<not> hasAttribute e ''alt'') (querySelectorAll doc (sel_tag ''img'')))"
    by (simp add: r 6 5 4 sections_of_images 2 1)
  show "sections_of ''Link'' (analyzePageElements doc u)
     = map (\<lambda>e. determineSectionForElement e ?secs)
         (filter (\<lambda>e. spec_bad_link_text (textContent e)) (querySelectorAll doc sel_a_href))"
    by (simp add: r 6 sections_of_links 4 3 2 1)
  show "sections_of ''Paragraph'' (analyzePageElements doc u)
     = map (\<lambda>e. determineSectionForElement e ?secs)
         (filter (\<lambda>e. length (textContent e) > 300) (querySelectorAll doc (sel_tag ''p'')))"
    by (simp add: r sections_of_paragraphs 5 4 3 2 1)
qed

lemma has_class_spec: "has_class q e c = spec_has_class q e c"
  by (simp add: has_class_def spec_has_class_def classList_def split: option.splits)

lemma matches_sel_of_query: "matches q e (sel_of_query qry) = spec_query_matches q e qry"
  by (cases qry)
     (auto simp: sel_of_query_def matches_def sel_tag_def sel_div_role_def sel_class_def
        has_class_spec split: option.splits)

lemma spec_landmark_Cons:
  "spec_landmark doc (qry # chain)
     = or_else (querySelector doc (sel_of_query qry)) (spec_landmark doc chain)"
  by (simp add: querySelector_find matches_sel_of_query or_else_def)

lemma or_else_None: "or_else a None = a"
  by (cases a) (simp_all add: or_else_def)

lemma resolve_sections_spec:
  "resolve_sections doc = map (\<lambda>r. (fst r, spec_landmark doc (snd r))) spec_region_chains"
  by (simp add: resolve_sections_def spec_region_chains_def spec_landmark_Cons or_else_None
        sel_of_query_def del: spec_landmark.simps(2))

lemma determineSectionForElement_first:
  "determineSectionForElement e (map (\<lambda>r. (fst r, f (snd r))) rs)
     = (case filter (\<lambda>r. case f (snd r) of None \<Rightarrow> False | Some l \<Rightarrow> contains l e) rs of
          [] \<Rightarrow> ''general''
        | r # rest \<Rightarrow> fst r)"
  by (induction rs) (auto split: option.splits)


lemma spec_section_range:
  "spec_section doc e \<in> {''header'', ''navigation'', ''content'', ''sidebar'', ''footer'', ''general''}"
proof -
  let ?rs = "filter (region_contains doc e) spec_region_chains"
  show ?thesis
  proof (cases ?rs)
    case Nil
    then show ?thesis by (simp add: spec_section_def)
  next
    case (Cons r rest)
    then have "r \<in> set spec_region_chains"
      by (metis filter_is_subset list.set_intros(1) subsetD)
    then have "fst r \<in> {''header'', ''navigation'', ''content'', ''sidebar'', ''footer''}"
      by (auto simp: spec_region_chains_def)
    with Cons show ?thesis by (auto simp: spec_section_def)
  qed
qed

lemma find_in_set: "List.find P xs = Some x \<Longrightarrow> x \<in> set xs"
  by (induction xs) (auto split: if_splits)

lemma spec_landmark_in_document:
  "spec_landmark doc chain = Some l \<Longrightarrow> l \<in> set (all_elements doc)"
  by (induction chain) (auto split: option.splits dest: find_in_set)

lemma region_contains_contains:
  assumes "e \<in> set (all_elements doc)"
  shows "region_contains doc e region
           = (case spec_landmark doc (snd region) of None \<Rightarrow> False | Some l \<Rightarrow> contains l e)"
proof (cases "spec_landmark doc (snd region)")
  case None
  then show ?thesis by (simp add: region_contains_def)
next
  case (Some l)
  from spec_landmark_in_document[OF Some] assms
  have "contains l e = (e \<in> set (descendants (fst l) (snd l)))"
    by (rule contains_descendants)
  with Some show ?thesis by (simp add: region_contains_def)
qed

lemma determineSectionForElement_spec:
  assumes "e \<in> set (all_elements doc)"
  shows "determineSectionForElement e (resolve_sections doc) = spec_section doc e"
proof -
  have "region_contains doc e
          = (\<lambda>region. case spec_landmark doc (snd region) of None \<Rightarrow> False | Some l \<Rightarrow> contains l e)"
    by (rule ext) (rule region_contains_contains[OF assms])
  then show ?thesis
    unfolding resolve_sections_spec determineSectionForElement_first spec_section_def
    by simp
qed

lemma map_section_spec:
  assumes "set xs \<subseteq> set (all_elements doc)"
  shows "map (\<lambda>e. determineSectionForElement e (resolve_sections doc)) xs = map (spec_section doc) xs"
  using assms by (intro map_cong refl determineSectionForElement_spec) auto

lemma set_spec_skipped: "set (spec_skipped previous hs) \<subseteq> set hs"
  by (induction hs arbitrary: previous) auto


lemma parseInt_heading:
  "matches q h sel_headings \<Longrightarrow> parseInt (drop 1 (tagName h)) = Some (spec_level h)"
  by (auto simp: matches_sel_headings spec_level_def tagName_def ascii_upper_def
        parseInt_def isDigit_def isWhiteSpace_def Let_def)

lemma heading_step_previous:
  "snd (snd (heading_step secs (st, c, prev) h)) = parseInt (drop 1 (tagName h))"
  by (simp add: heading_step_def Let_def)

lemma heading_step_skipped:
  assumes "parseInt (drop 1 (tagName h)) = Some l"
  shows "map issue_section
           (filter (\<lambda>i. startsWith (issue i) ''Skipped heading level'')
              (elementIssues (fst (heading_step secs (st, c, Some prev) h))))
         = map issue_section
             (filter (\<lambda>i. startsWith (issue i) ''Skipped heading level'') (elementIssues st))
           @ (if prev > 0 \<and> l > prev + 1 then [determineSectionForElement h secs] else [])"
  using assms
  by (simp add: heading_step_def Let_def multiple_h1_issue_def skipped_level_issue_def
        startsWith_def)

lemma foldl_heading_skipped:
  assumes "\<forall>h \<in> set hs. matches q h sel_headings"
  shows "map issue_section
           (filter (\<lambda>i. startsWith (issue i) ''Skipped heading level'')
              (elementIssues (fst (foldl (heading_step secs) (st, c, Some prev) hs))))
         = map issue_section
             (filter (\<lambda>i. startsWith (issue i) ''Skipped heading level'') (elementIssues st))
           @ map (\<lambda>h. determineSectionForElement h secs) (spec_skipped prev hs)"
  using assms
proof (induction hs arbitrary: st c prev)
  case Nil
  show ?case by simp
next
  case (Cons h hs)
  from Cons.prems have "matches q h sel_headings" by simp
  then have p: "parseInt (drop 1 (tagName h)) = Some (spec_level h)"
    by (rule parseInt_heading)
  obtain st' c' where step: "heading_step secs (st, c, Some prev) h = (st', c', Some (spec_level h))"
    using heading_step_previous[of secs st c "Some prev" h] p
    by (cases "heading_step secs (st, c, Some prev) h") auto
  from heading_step_skipped[OF p, of secs st c prev]
  have f: "map issue_section
           (filter (\<lambda>i. startsWith (issue i) ''Skipped heading level'') (elementIssues st'))
         = map issue_section
             (filter (\<lambda>i. startsWith (issue i) ''Skipped heading level'') (elementIssues st))
           @ (if prev > 0 \<and> spec_level h > prev + 1 then [determineSectionForElement h secs] else [])"
    by (simp add: step)
  from Cons.prems have rest: "\<forall>h \<in> set hs. matches q h sel_headings" by simp
  show ?case
    using Cons.IH[OF rest, of st' c' "spec_level h"] by (simp add: step f)
qed

lemma querySelectorAll_headings_spec:
  "querySelectorAll doc sel_headings = filter spec_heading (all_elements doc)"
  by (simp add: querySelectorAll_def matches_sel_headings spec_heading_def[abs_def])

lemma querySelectorAll_tag_spec:
  "querySelectorAll doc (sel_tag t) = filter (spec_is t) (all_elements doc)"
  by (simp add: querySelectorAll_def matches_sel_tag spec_is_def[abs_def])

lemma check_headings_elements_skipped:
  "map issue_section
     (filter (\<lambda>i. startsWith (issue i) ''Skipped heading level'')
        (elementIssues (check_headings_elements doc secs st)))
   = map issue_section
       (filter (\<lambda>i. startsWith (issue i) ''Skipped heading level'') (elementIssues st))
     @ map (\<lambda>h. determineSectionForElement h secs)
         (spec_skipped 0 (querySelectorAll doc sel_headings))"
proof -
  let ?hs = "querySelectorAll doc sel_headings"
  let ?r = "foldl (heading_step secs) (add_total (length ?hs) st, 0, Some 0) ?hs"
  have m: "\<forall>h \<in> set ?hs. matches (quirksMode doc) h sel_headings"
    by (simp add: querySelectorAll_def)
  from foldl_heading_skipped[OF m, of secs "add_total (length ?hs) st" 0 0]
  have "map issue_section
     (filter (\<lambda>i. startsWith (issue i) ''Skipped heading level'') (elementIssues (fst ?r)))
   = map issue_section
       (filter (\<lambda>i. startsWith (issue i) ''Skipped heading level'') (elementIssues st))
     @ map (\<lambda>h. determineSectionForElement h secs) (spec_skipped 0 ?hs)"
    by simp
  then show ?thesis
    by (cases ?r) (simp add: check_headings_elements_def Let_def missing_h1_issue_def startsWith_def)
qed

lemma run_element_checks_skipped:
  "map issue_section
     (filter (\<lambda>i. startsWith (issue i) ''Skipped heading level'')
        (elementIssues (run_element_checks doc u)))
   = map (\<lambda>h. determineSectionForElement h (resolve_sections doc))
       (spec_skipped 0 (querySelectorAll doc sel_headings))"
proof -
  let ?P = "\<lambda>i. startsWith (issue i) ''Skipped heading level''"
  let ?secs = "resolve_sections doc"
  let ?st1 = "check_title_element doc (initial_result u)"
  let ?st2 = "check_meta_description_element doc ?st1"
  let ?st3 = "check_images_elements doc ?secs ?st2"
  let ?st4 = "check_headings_elements doc ?secs ?st3"
  let ?st5 = "check_links_elements doc ?secs ?st4"
  let ?st6 = "check_paragraphs_elements doc ?secs ?st5"
  have "filter ?P (elementIssues ?st1) = filter ?P (elementIssues (initial_result u))"
    by (rule appends_filter[OF appends_check_title_element]) (auto simp: startsWith_def)
  then have 1: "filter ?P (elementIssues ?st1) = []"
    by (simp add: initial_result_def)
  have 2: "filter ?P (elementIssues ?st2) = filter ?P (elementIssues ?st1)"
    by (rule appends_filter[OF appends_check_meta_description_element]) (auto simp: startsWith_def)
  have 3: "filter ?P (elementIssues ?st3) = filter ?P (elementIssues ?st2)"
    by (rule appends_filter[OF appends_check_images_elements]) (auto simp: startsWith_def)
  have 5: "filter ?P (elementIssues ?st5) = filter ?P (elementIssues ?st4)"
    by (rule appends_filter[OF appends_check_links_elements]) (auto simp: startsWith_def)
  have 6: "filter ?P (elementIssues ?st6) = filter ?P (elementIssues ?st5)"
    by (rule appends_filter[OF appends_check_paragraphs_elements]) (auto simp: startsWith_def)
  have "map issue_section (filter ?P (elementIssues ?st6))
      = map (\<lambda>h. determineSectionForElement h ?secs)
          (spec_skipped 0 (querySelectorAll doc sel_headings))"
    unfolding 6 5 check_headings_elements_skipped 3 2 1 by simp
  then show ?thesis
    by (simp add: run_element_checks_def Let_def)
qed


lemma appends_mono: "appends Q st st' \<Longrightarrow> (\<And>i. Q i \<Longrightarrow> Q' i) \<Longrightarrow> appends Q' st st'"
  by (auto simp: appends_def list_all_iff)

lemma kind_title:
  "appends spec_issue_kind st (check_title_element doc st)"
  by (simp add: appends_def check_title_element_def Let_def title_issue_def spec_issue_kind_def
        split: option.splits)

lemma kind_meta:
  "appends spec_issue_kind st (check_meta_description_element doc st)"
  by (simp add: appends_def check_meta_description_element_def Let_def meta_issue_def
        spec_issue_kind_def split: option.splits)

lemma kind_images:
  "appends spec_issue_kind st (check_images_elements doc secs st)"
  by (rule appends_mono[OF appends_check_images_elements]) (simp add: spec_issue_kind_def)

lemma kind_links:
  "appends spec_issue_kind st (check_links_elements doc secs st)"
  by (rule appends_mono[OF appends_check_links_elements]) (simp add: spec_issue_kind_def)

lemma kind_paragraphs:
  "appends spec_issue_kind st (check_paragraphs_elements doc secs st)"
  by (rule appends_mono[OF appends_check_paragraphs_elements]) (simp add: spec_issue_kind_def)

lemma kind_heading_step:
  "appends spec_issue_kind (fst hst) (fst (heading_step secs hst h))"
  by (cases hst)
     (simp add: appends_def heading_step_def Let_def multiple_h1_issue_def skipped_level_issue_def
        spec_issue_kind_def startsWith_def split: option.splits)

lemma kind_foldl_heading:
  "appends spec_issue_kind (fst hst) (fst (foldl (heading_step secs) hst hs))"
proof (induction hs arbitrary: hst)
  case Nil
  show ?case by (simp add: appends_refl)
next
  case (Cons h hs)
  show ?case
    using appends_trans[OF kind_heading_step[of hst secs h] Cons[of "heading_step secs hst h"]]
    by simp
qed

lemma kind_headings:
  "appends spec_issue_kind st (check_headings_elements doc secs st)"
proof -
  let ?hs = "querySelectorAll doc sel_headings"
  let ?r = "foldl (heading_step secs) (add_total (length ?hs) st, 0, Some 0) ?hs"
  have "appends spec_issue_kind (add_total (length ?hs) st) (fst ?r)"
    using kind_foldl_heading[of "(add_total (length ?hs) st, 0, Some 0)" secs ?hs] by simp
  then have a: "appends spec_issue_kind st (fst ?r)"
    by (simp add: appends_def)
  have m: "spec_issue_kind missing_h1_issue"
    by (simp add: spec_issue_kind_def missing_h1_issue_def)
  show ?thesis
    using a m by (cases ?r) (auto simp: check_headings_elements_def Let_def appends_def)
qed

lemma kind_analyzePageElements:
  "list_all spec_issue_kind (elementIssues (analyzePageElements doc u))"
proof -
  let ?secs = "resolve_sections doc"
  let ?st0 = "initial_result u"
  let ?st1 = "check_title_element doc ?st0"
  let ?st2 = "check_meta_description_element doc ?st1"
  let ?st3 = "check_images_elements doc ?secs ?st2"
  let ?st4 = "check_headings_elements doc ?secs ?st3"
  let ?st5 = "check_links_elements doc ?secs ?st4"
  let ?st6 = "check_paragraphs_elements doc ?secs ?st5"
  note a1 = kind_title[of ?st0 doc]
  note a2 = appends_trans[OF a1 kind_meta[of ?st1 doc]]
  note a3 = appends_trans[OF a2 kind_images[of ?st2 doc ?secs]]
  note a4 = appends_trans[OF a3 kind_headings[of ?st3 doc ?secs]]
  note a5 = appends_trans[OF a4 kind_links[of ?st4 doc ?secs]]
  note a6 = appends_trans[OF a5 kind_paragraphs[of ?st5 doc ?secs]]
  from a6 have "list_all spec_issue_kind (elementIssues ?st6)"
    by (simp add: appends_def initial_result_def)
  then show ?thesis
    by (simp add: analyzePageElements_def run_element_checks_def Let_def)
qed

lemma images_without_alt_spec:
  "filter (\<lambda>e. \<not> hasAttribute e ''alt'') (querySelectorAll doc (sel_tag ''img''))
     = filter spec_image_without_alt (all_elements doc)"
  unfolding querySelectorAll_def filter_filter
  by (rule filter_cong) (auto simp: matches_sel_tag spec_image_without_alt_def hasAttribute_def)

lemma bad_links_spec:
  "filter (\<lambda>e. spec_bad_link_text (textContent e)) (querySelectorAll doc sel_a_href)
     = filter (\<lambda>e. spec_link e \<and> spec_bad_link_text (textContent e)) (all_elements doc)"
  unfolding querySelectorAll_def filter_filter
  by (rule filter_cong) (auto simp: matches_sel_a_href spec_link_def)

lemma long_paragraphs_spec:
  "filter (\<lambda>e. length (textContent e) > 300) (querySelectorAll doc (sel_tag ''p''))
     = filter (\<lambda>e. spec_is ''p'' e \<and> length (textContent e) > 300) (all_elements doc)"
  unfolding querySelectorAll_def filter_filter
  by (rule filter_cong) (auto simp: matches_sel_tag spec_is_def)


lemma querySelectorAll_subset: "set (querySelectorAll doc sel) \<subseteq> set (all_elements doc)"
  by (simp add: querySelectorAll_def)

lemma filter_all_subset: "set (filter P (all_elements doc)) \<subseteq> set (all_elements doc)"
  by simp

lemma drop_filter_all_subset: "set (drop n (filter P (all_elements doc))) \<subseteq> set (all_elements doc)"
  using set_drop_subset[of n "filter P (all_elements doc)"] by auto

lemma skipped_filter_all_subset:
  "set (spec_skipped n (filter P (all_elements doc))) \<subseteq> set (all_elements doc)"
  using set_spec_skipped[of n "filter P (all_elements doc)"] by auto

subsection \<open>The claims on the element analyzer\<close>

text \<open>
  Claim C3. For every document and URL, the element analyzer returns the six section
  records Header, Navigation, Main Content, Sidebar, Footer and General, in this
  order, with the importance weights 8, 7, 10, 5, 4 and 6; every score lies between
  0 and 100; and \<open>analyzedElements\<close> equals \<open>totalElements\<close>, both being 2 (the
  title and the meta description) plus the number of images, headings, links and
  paragraphs found.
\<close>

theorem six_sections_scores_counters:
  "map name (sectionAnalysis (analyzePageElements doc u))
       = [''Header'', ''Navigation'', ''Main Content'', ''Sidebar'', ''Footer'', ''General'']
   \<and> map importance (sectionAnalysis (analyzePageElements doc u)) = [8, 7, 10, 5, 4, 6]
   \<and> (\<forall>s \<in> set (sectionAnalysis (analyzePageElements doc u)). 0 \<le> score s \<and> score s \<le> 100)
   \<and> analyzedElements (analyzePageElements doc u) = totalElements (analyzePageElements doc u)
   \<and> totalElements (analyzePageElements doc u) =
        2 + length (querySelectorAll doc (sel_tag ''img''))
          + length (querySelectorAll doc sel_headings)
          + length (querySelectorAll doc sel_a_href)
          + length (querySelectorAll doc (sel_tag ''p''))"
proof -
  let ?r = "analyzePageElements doc u"
  have c: "consistent (run_element_checks doc u)"
    by (rule consistent_run_element_checks)
  have n: "map name (sectionAnalysis ?r)
       = [''Header'', ''Navigation'', ''Main Content'', ''Sidebar'', ''Footer'', ''General'']"
    using c by (simp add: analyzePageElements_def consistent_def section_names_def)
  have i: "map importance (sectionAnalysis ?r) = [8, 7, 10, 5, 4, 6]"
    using c by (simp add: analyzePageElements_def consistent_def)
  have s: "\<forall>s \<in> set (sectionAnalysis ?r). 0 \<le> score s \<and> score s \<le> 100"
    by (auto simp: analyzePageElements_def clamp_scores_def clamp_score_def)
  have k: "analyzedElements ?r = elements_found doc" "totalElements ?r = elements_found doc"
    by (simp_all add: analyzePageElements_def run_element_checks_counters)
  from n i s k show ?thesis
    by (simp add: elements_found_def)
qed

theorem six_sections_scores_counters_witness:
  "map name (sectionAnalysis (analyzePageElements doc_landmarks []))
       = [''Header'', ''Navigation'', ''Main Content'', ''Sidebar'', ''Footer'', ''General'']
   \<and> map importance (sectionAnalysis (analyzePageElements doc_landmarks [])) = [8, 7, 10, 5, 4, 6]
   \<and> list_all (\<lambda>s. 0 \<le> score s \<and> score s \<le> 100)
         (sectionAnalysis (analyzePageElements doc_landmarks []))
   \<and> analyzedElements (analyzePageElements doc_landmarks []) = 12
   \<and> totalElements (analyzePageElements doc_landmarks []) = 12"
proof -
  have 1: "length (querySelectorAll doc_landmarks (sel_tag ''img'')) = 4"
    by code_simp
  have 2: "length (querySelectorAll doc_landmarks sel_headings) = 3"
    by code_simp
  have 3: "length (querySelectorAll doc_landmarks sel_a_href) = 2"
    by code_simp
  have 4: "length (querySelectorAll doc_landmarks (sel_tag ''p'')) = 1"
    by code_simp
  show ?thesis
    using six_sections_scores_counters[of doc_landmarks "[]"]
    by (simp add: 1 2 3 4 list_all_iff)
qed

text \<open>
  Claim C5, as amended. An issue raised on an image, on a heading (an \<open>h1\<close> after
  the first, or a heading that skips a level), on a link or on a paragraph carries
  the section of its element: the name of the first region, in the fixed order
  header, navigation, content, sidebar, footer, whose landmark is the element or an
  ancestor of it, and general when no landmark is. The landmark of a region is the
  first element of the document that answers the first query of the region's chain
  that any element answers. The section of an element of the document that the code
  computes is this one, and it is one of the six names. The issues on the title and
  on the meta description always carry header, and the issue of a page without
  \<open>h1\<close> always carries content; every issue is of one of these kinds.
\<close>

theorem section_attribution:
  "(e \<in> set (all_elements doc) \<longrightarrow>
        determineSectionForElement e (resolve_sections doc) = spec_section doc e)
   \<and> map fst spec_region_chains = [''header'', ''navigation'', ''content'', ''sidebar'', ''footer'']
   \<and> spec_section doc e \<in> {''header'', ''navigation'', ''content'', ''sidebar'', ''footer'', ''general''}
   \<and> list_all spec_issue_kind (elementIssues (analyzePageElements doc u))
   \<and> sections_of ''Image'' (analyzePageElements doc u)
       = map (spec_section doc) (filter spec_image_without_alt (all_elements doc))
   \<and> map issue_section
         (filter (\<lambda>i. issue i = ''Multiple H1 headings'') (elementIssues (analyzePageElements doc u)))
       = map (spec_section doc) (drop 1 (filter (spec_is ''h1'') (all_elements doc)))
   \<and> map issue_section
         (filter (\<lambda>i. startsWith (issue i) ''Skipped heading level'')
            (elementIssues (analyzePageElements doc u)))
       = map (spec_section doc) (spec_skipped 0 (filter spec_heading (all_elements doc)))
   \<and> sections_of ''Link'' (analyzePageElements doc u)
       = map (spec_section doc)
           (filter (\<lambda>x. spec_link x \<and> spec_bad_link_text (textContent x)) (all_elements doc))
   \<and> sections_of ''Paragraph'' (analyzePageElements doc u)
       = map (spec_section doc)
           (filter (\<lambda>x. spec_is ''p'' x \<and> length (textContent x) > 300) (all_elements doc))"
proof (intro conjI)
  show "e \<in> set (all_elements doc) \<longrightarrow>
        determineSectionForElement e (resolve_sections doc) = spec_section doc e"
    by (intro impI) (rule determineSectionForElement_spec)
  show "map fst spec_region_chains = [''header'', ''navigation'', ''content'', ''sidebar'', ''footer'']"
    by (simp add: spec_region_chains_def)
  show "spec_section doc e \<in> {''header'', ''navigation'', ''content'', ''sidebar'', ''footer'', ''general''}"
    by (rule spec_section_range)
  show "list_all spec_issue_kind (elementIssues (analyzePageElements doc u))"
    by (rule kind_analyzePageElements)
  show "sections_of ''Image'' (analyzePageElements doc u)
       = map (spec_section doc) (filter spec_image_without_alt (all_elements doc))"
    unfolding sections_of_analyzePageElements(1) images_without_alt_spec
    by (rule map_section_spec) (rule filter_all_subset)
  show "map issue_section
         (filter (\<lambda>i. issue i = ''Multiple H1 headings'') (elementIssues (analyzePageElements doc u)))
       = map (spec_section doc) (drop 1 (filter (spec_is ''h1'') (all_elements doc)))"
  proof -
    have "map issue_section
         (filter (\<lambda>i. issue i = ''Multiple H1 headings'') (elementIssues (analyzePageElements doc u)))
       = map (\<lambda>h. determineSectionForElement h (resolve_sections doc))
           (drop 1 (filter (spec_is ''h1'') (all_elements doc)))"
      using run_element_checks_multiple[of doc u]
      by (simp add: analyzePageElements_def querySelectorAll_tag_spec o_def multiple_h1_issue_def)
    also have "\<dots> = map (spec_section doc) (drop 1 (filter (spec_is ''h1'') (all_elements doc)))"
      by (rule map_section_spec) (rule drop_filter_all_subset)
    finally show ?thesis .
  qed
  show "map issue_section
         (filter (\<lambda>i. startsWith (issue i) ''Skipped heading level'')
            (elementIssues (analyzePageElements doc u)))
       = map (spec_section doc) (spec_skipped 0 (filter spec_heading (all_elements doc)))"
  proof -
    have "map issue_section
         (filter (\<lambda>i. startsWith (issue i) ''Skipped heading level'')
            (elementIssues (analyzePageElements doc u)))
       = map (\<lambda>h. determineSectionForElement h (resolve_sections doc))
           (spec_skipped 0 (filter spec_heading (all_elements doc)))"
      using run_element_checks_skipped[of doc u]
      by (simp add: analyzePageElements_def querySelectorAll_headings_spec)
    also have "\<dots> = map (spec_section doc) (spec_skipped 0 (filter spec_heading (all_elements doc)))"
      by (rule map_section_spec) (rule skipped_filter_all_subset)
    finally show ?thesis .
  qed
  show "sections_of ''Link'' (analyzePageElements doc u)
       = map (spec_section doc)
           (filter (\<lambda>x. spec_link x \<and> spec_bad_link_text (textContent x)) (all_elements doc))"
    unfolding sections_of_analyzePageElements(2) bad_links_spec
    by (rule map_section_spec) (rule filter_all_subset)
  show "sections_of ''Paragraph'' (analyzePageElements doc u)
       = map (spec_section doc)
           (filter (\<lambda>x. spec_is ''p'' x \<and> length (textContent x) > 300) (all_elements doc))"
    unfolding sections_of_analyzePageElements(3) long_paragraphs_spec
    by (rule map_section_spec) (rule filter_all_subset)
qed

theorem section_attribution_witness:
  "determineSectionForElement ([0, 1, 1, 1, 0], Element ''img'' [] []) (resolve_sections doc_fallbacks)
     = ''content''
   \<and> sections_of ''Image'' (analyzePageElements doc_fallbacks [])
       = [''header'', ''content'', ''content'', ''general'', ''sidebar'']
   \<and> sections_of ''Image'' (analyzePageElements doc_landmarks []) = [''header'', ''general'', ''footer'']
   \<and> map issue_section
         (filter (\<lambda>i. issue i = ''Multiple H1 headings'')
            (elementIssues (analyzePageElements doc_landmarks [])))
       = [''content'']
   \<and> map issue_section
         (filter (\<lambda>i. startsWith (issue i) ''Skipped heading level'')
            (elementIssues (analyzePageElements doc_landmarks [])))
       = [''content'']
   \<and> sections_of ''Link'' (analyzePageElements doc_landmarks []) = [''navigation'', ''footer'']
   \<and> sections_of ''Paragraph'' (analyzePageElements doc_landmarks []) = []"
proof -
  let ?e = "([0, 1, 1, 1, 0], Element ''img'' [] [])"
  have m: "?e \<in> set (all_elements doc_fallbacks)"
    by code_simp
  have 1: "spec_section doc_fallbacks ?e = ''content''"
    by code_simp
  have 2: "map (spec_section doc_fallbacks) (filter spec_image_without_alt (all_elements doc_fallbacks))
             = [''header'', ''content'', ''content'', ''general'', ''sidebar'']"
    by code_simp
  have 3: "map (spec_section doc_landmarks) (filter spec_image_without_alt (all_elements doc_landmarks))
             = [''header'', ''general'', ''footer'']"
    by code_simp
  have 4: "map (spec_section doc_landmarks) (drop 1 (filter (spec_is ''h1'') (all_elements doc_landmarks)))
             = [''content'']"
    by code_simp
  have 5: "map (spec_section doc_landmarks)
             (spec_skipped 0 (filter spec_heading (all_elements doc_landmarks)))
             = [''content'']"
    by code_simp
  have 6: "map (spec_section doc_landmarks)
             (filter (\<lambda>x. spec_link x \<and> spec_bad_link_text (textContent x))
                (all_elements doc_landmarks))
             = [''navigation'', ''footer'']"
    by code_simp
  have 7: "map (spec_section doc_landmarks)
             (filter (\<lambda>x. spec_is ''p'' x \<and> length (textContent x) > 300)
                (all_elements doc_landmarks))
             = []"
    by code_simp
  note a = section_attribution[of ?e doc_fallbacks "[]", unfolded 1 2]
  note b = section_attribution[of ?e doc_landmarks "[]", unfolded 3 4 5 6 7]
  from a m have a1: "determineSectionForElement ?e (resolve_sections doc_fallbacks) = ''content''"
    by blast
  from a have a2: "sections_of ''Image'' (analyzePageElements doc_fallbacks [])
       = [''header'', ''content'', ''content'', ''general'', ''sidebar'']"
    by (elim conjE)
  from b have b1: "sections_of ''Image'' (analyzePageElements doc_landmarks []) = [''header'', ''general'', ''footer'']"
    by (elim conjE)
  from b have b2: "map issue_section
         (filter (\<lambda>i. issue i = ''Multiple H1 headings'')
            (elementIssues (analyzePageElements doc_landmarks [])))
       = [''content'']"
    by (elim conjE)
  from b have b3: "map issue_section
         (filter (\<lambda>i. startsWith (issue i) ''Skipped heading level'')
            (elementIssues (analyzePageElements doc_landmarks [])))
       = [''content'']"
    by (elim conjE)
  from b have b4: "sections_of ''Link'' (analyzePageElements doc_landmarks []) = [''navigation'', ''footer'']"
    by (elim conjE)
  from b have b5: "sections_of ''Paragraph'' (analyzePageElements doc_landmarks []) = []"
    by (elim conjE)
  from a1 a2 b1 b2 b3 b4 b5 show ?thesis by (intro conjI)
qed

theorem title_issue_section_counterexample:
  "querySelector doc_landmarks (sel_tag ''title'')
     = Some ([0, 0, 0], Element ''title'' [] [Text ''Short''])
   \<and> filter (region_contains doc_landmarks ([0, 0, 0], Element ''title'' [] [Text ''Short'']))
        spec_region_chains = []
   \<and> spec_section doc_landmarks ([0, 0, 0], Element ''title'' [] [Text ''Short'']) = ''general''
   \<and> determineSectionForElement ([0, 0, 0], Element ''title'' [] [Text ''Short''])
        (resolve_sections doc_landmarks) = ''general''
   \<and> sections_of ''Title'' (analyzePageElements doc_landmarks []) = [''header'']"
  by code_simp

text \<open>
  Claim C7, as amended. For a document with exactly two \<open>h1\<close> elements the element
  analyzer raises exactly one issue "Multiple H1 headings", of medium severity, on
  the second \<open>h1\<close> in document order, with the section of that \<open>h1\<close> (the first
  landmark containing it, else general). The record of that section holds the issue,
  and its score is 100 less 15 less the penalties of its other issues, brought into
  the range from 0 to 100. The claim as stated names the Header record: on a page
  whose two \<open>h1\<close> lie outside the header landmark the Header score keeps 100 and the
  General score is 85.
\<close>

theorem second_h1_penalizes_its_section:
  assumes "querySelectorAll doc (sel_tag ''h1'') = [first, second]"
  shows "filter (\<lambda>i. issue i = ''Multiple H1 headings'') (elementIssues (analyzePageElements doc u))
           = [multiple_h1_issue second (determineSectionForElement second (resolve_sections doc))]
   \<and> issue_severity (multiple_h1_issue second (determineSectionForElement second (resolve_sections doc))) = medium
   \<and> capitalizeFirstLetter (determineSectionForElement second (resolve_sections doc))
        \<in> set (map name (sectionAnalysis (analyzePageElements doc u)))
   \<and> (\<forall>s \<in> set (sectionAnalysis (analyzePageElements doc u)).
         name s = capitalizeFirstLetter (determineSectionForElement second (resolve_sections doc)) \<longrightarrow>
         filter (\<lambda>i. issue i = ''Multiple H1 headings'') (section_issues s)
           = [multiple_h1_issue second (determineSectionForElement second (resolve_sections doc))]
         \<and> score s = max 0 (min 100 (100 - 15
              - sum_list (map spec_penalty
                  (filter (\<lambda>i. issue i \<noteq> ''Multiple H1 headings'') (section_issues s))))))"
proof -
  let ?P = "\<lambda>i. issue i = ''Multiple H1 headings''"
  let ?r = "analyzePageElements doc u"
  let ?sec = "determineSectionForElement second (resolve_sections doc)"
  let ?mi = "multiple_h1_issue second ?sec"
  have flat: "filter ?P (elementIssues ?r) = [?mi]"
    using run_element_checks_multiple[of doc u] assms by (simp add: analyzePageElements_def)
  have sev: "issue_severity ?mi = medium"
    by (simp add: multiple_h1_issue_def)
  have names: "map name (sectionAnalysis ?r) = section_names"
    using consistent_run_element_checks[of doc u]
    by (simp add: analyzePageElements_def consistent_def)
  have there: "capitalizeFirstLetter ?sec \<in> set (map name (sectionAnalysis ?r))"
    unfolding names by (rule capitalizeFirstLetter_total)
  have sect: "filter ?P (section_issues s) = [?mi]
      \<and> score s = max 0 (min 100 (100 - 15
           - sum_list (map spec_penalty (filter (\<lambda>i. \<not> ?P i) (section_issues s)))))"
    if s: "s \<in> set (sectionAnalysis ?r)" and n: "name s = capitalizeFirstLetter ?sec" for s
  proof -
    from analyzePageElements_sections[OF s]
    have si: "section_issues s = issues_of_section (name s) (elementIssues ?r)"
      and sc: "score s = max 0 (min 100 (100 - sum_list (map spec_penalty (section_issues s))))"
      by simp_all
    have "filter ?P (section_issues s) = issues_of_section (name s) (filter ?P (elementIssues ?r))"
      unfolding si issues_of_section_def by (simp add: conj_commute)
    then have f: "filter ?P (section_issues s) = [?mi]"
      unfolding flat by (simp add: issues_of_section_def n)
    have "sum_list (map spec_penalty (section_issues s))
        = 15 + sum_list (map spec_penalty (filter (\<lambda>i. \<not> ?P i) (section_issues s)))"
      using sum_list_filter_split[of spec_penalty "section_issues s" ?P]
      by (simp add: f spec_penalty_multiple)
    with sc f show ?thesis by simp
  qed
  from flat sev there sect show ?thesis by blast
qed

theorem second_h1_penalizes_its_section_witness:
  "filter (\<lambda>i. issue i = ''Multiple H1 headings'') (elementIssues (analyzePageElements doc_landmarks []))
     = [multiple_h1_issue ([0, 1, 2, 0], Element ''h1'' [] [Text ''Second'']) ''content'']
   \<and> ''Main Content'' \<in> set (map name (sectionAnalysis (analyzePageElements doc_landmarks [])))"
proof -
  have h: "querySelectorAll doc_landmarks (sel_tag ''h1'')
             = [([0, 1, 0, 0], Element ''h1'' [] [Text ''Site'']),
                ([0, 1, 2, 0], Element ''h1'' [] [Text ''Second''])]"
    by code_simp
  have d: "determineSectionForElement ([0, 1, 2, 0], Element ''h1'' [] [Text ''Second''])
             (resolve_sections doc_landmarks) = ''content''"
    by code_simp
  note t = second_h1_penalizes_its_section[OF h, of "[]", unfolded d capitalize_content]
  from t show ?thesis by blast
qed

theorem two_h1_outside_header_counterexample:
  "map name (sectionAnalysis (analyzePageElements doc_two_h1 []))
     = [''Header'', ''Navigation'', ''Main Content'', ''Sidebar'', ''Footer'', ''General'']
   \<and> map score (sectionAnalysis (analyzePageElements doc_two_h1 []))
     = [100, 100, 100, 100, 100, 85]
   \<and> map issue (elementIssues (analyzePageElements doc_two_h1 [])) = [''Multiple H1 headings'']
   \<and> map issue_section (elementIssues (analyzePageElements doc_two_h1 [])) = [''general'']"
  by code_simp

text \<open>
  Claim C8. In the element analyzer, where the document has a meta description with
  a \<open>content\<close> attribute, the issues on the meta description are exactly: the
  missing one (high) for an empty content; "too short" (medium) for a length below
  70; "too long" (low) for a length above 160; and none otherwise. So 70, 71 and
  160 characters raise nothing, 69 characters raise "too short", and 161 raise
  "too long".
\<close>

theorem meta_description_boundaries:
  assumes "querySelector doc (sel_meta_name ''description'') = Some m"
    and "getAttribute m ''content'' = Some c"
  shows "map (\<lambda>i. (issue i, issue_severity i))
           (filter (\<lambda>i. element i = ''Meta Description'')
              (elementIssues (analyzePageElements doc u)))
         = (if length c = 0 then [(''Missing meta description'', high)]
            else if length c < 70 then [(''Meta description is too short'', medium)]
            else if length c > 160 then [(''Meta description is too long'', low)]
            else [])"
proof -
  let ?P = "\<lambda>i. element i = ''Meta Description''"
  let ?secs = "resolve_sections doc"
  let ?st1 = "check_title_element doc (initial_result u)"
  let ?st2 = "check_meta_description_element doc ?st1"
  let ?st3 = "check_images_elements doc ?secs ?st2"
  let ?st4 = "check_headings_elements doc ?secs ?st3"
  let ?st5 = "check_links_elements doc ?secs ?st4"
  let ?st6 = "check_paragraphs_elements doc ?secs ?st5"
  have "filter ?P (elementIssues ?st1) = filter ?P (elementIssues (initial_result u))"
    by (rule appends_filter[OF appends_check_title_element]) auto
  then have 1: "filter ?P (elementIssues ?st1) = []"
    by (simp add: initial_result_def)
  have 3: "filter ?P (elementIssues ?st3) = filter ?P (elementIssues ?st2)"
    by (rule appends_filter[OF appends_check_images_elements]) auto
  have 4: "filter ?P (elementIssues ?st4) = filter ?P (elementIssues ?st3)"
    by (rule appends_filter[OF appends_check_headings_elements]) auto
  have 5: "filter ?P (elementIssues ?st5) = filter ?P (elementIssues ?st4)"
    by (rule appends_filter[OF appends_check_links_elements]) auto
  have 6: "filter ?P (elementIssues ?st6) = filter ?P (elementIssues ?st5)"
    by (rule appends_filter[OF appends_check_paragraphs_elements]) auto
  have "map (\<lambda>i. (issue i, issue_severity i)) (filter ?P (elementIssues ?st6))
         = (if length c = 0 then [(''Missing meta description'', high)]
            else if length c < 70 then [(''Meta description is too short'', medium)]
            else if length c > 160 then [(''Meta description is too long'', low)]
            else [])"
    unfolding 6 5 4 3 check_meta_description_element_issues[OF assms] 1 by simp
  then show ?thesis
    by (simp add: analyzePageElements_def run_element_checks_def Let_def)
qed

theorem meta_description_boundaries_witness:
  "map (\<lambda>i. (issue i, issue_severity i))
     (filter (\<lambda>i. element i = ''Meta Description'') (elementIssues (analyzePageElements (doc_meta 69) [])))
     = [(''Meta description is too short'', medium)]
   \<and> filter (\<lambda>i. element i = ''Meta Description'') (elementIssues (analyzePageElements (doc_meta 70) [])) = []
   \<and> filter (\<lambda>i. element i = ''Meta Description'') (elementIssues (analyzePageElements (doc_meta 71) [])) = []
   \<and> filter (\<lambda>i. element i = ''Meta Description'') (elementIssues (analyzePageElements (doc_meta 160) [])) = []
   \<and> map (\<lambda>i. (issue i, issue_severity i))
     (filter (\<lambda>i. element i = ''Meta Description'') (elementIssues (analyzePageElements (doc_meta 161) [])))
     = [(''Meta description is too long'', low)]"
  using meta_description_boundaries[OF doc_meta_description doc_meta_content, of 69 "[]"]
    meta_description_boundaries[OF doc_meta_description doc_meta_content, of 70 "[]"]
    meta_description_boundaries[OF doc_meta_description doc_meta_content, of 71 "[]"]
    meta_description_boundaries[OF doc_meta_description doc_meta_content, of 160 "[]"]
    meta_description_boundaries[OF doc_meta_description doc_meta_content, of 161 "[]"]
  by simp

text \<open>
  Claim C10. For every document, each of the six section records holds exactly the
  issues of the flat list whose \<open>section\<close> field is labelled with the record's
  name by \<open>capitalizeFirstLetter\<close>, in the order of the flat list. The label of
  every string is the name of one of the six records: the five section names go to
  their five records and every other string to General. So an issue of the flat
  list lies in the list of one record only, and the six lists together hold the
  issues of the flat list, each as often as the flat list does.
\<close>

theorem section_lists_partition_issues:
  "map name (sectionAnalysis (analyzePageElements doc u)) = section_names
   \<and> map capitalizeFirstLetter [''header'', ''navigation'', ''content'', ''sidebar'', ''footer'']
        = [''Header'', ''Navigation'', ''Main Content'', ''Sidebar'', ''Footer'']
   \<and> (\<forall>x. x \<notin> {''header'', ''navigation'', ''content'', ''sidebar'', ''footer''}
          \<longrightarrow> capitalizeFirstLetter x = ''General'')
   \<and> (\<forall>i. capitalizeFirstLetter (issue_section i) \<in> set section_names)
   \<and> (\<forall>s \<in> set (sectionAnalysis (analyzePageElements doc u)).
         section_issues s = issues_of_section (name s) (elementIssues (analyzePageElements doc u)))
   \<and> (\<forall>i \<in> set (elementIssues (analyzePageElements doc u)).
         \<forall>s \<in> set (sectionAnalysis (analyzePageElements doc u)).
           (i \<in> set (section_issues s)) = (name s = capitalizeFirstLetter (issue_section i)))
   \<and> mset (concat (map section_issues (sectionAnalysis (analyzePageElements doc u))))
        = mset (elementIssues (analyzePageElements doc u))"
proof -
  let ?st = "run_element_checks doc u"
  let ?r = "analyzePageElements doc u"
  have c: "consistent ?st" by (rule consistent_run_element_checks)
  have iss: "elementIssues ?r = elementIssues ?st"
    by (simp add: analyzePageElements_def)
  have n: "map name (sectionAnalysis ?r) = section_names"
    using c by (simp add: analyzePageElements_def consistent_def)
  have per: "section_issues s = issues_of_section (name s) (elementIssues ?r)"
    if "s \<in> set (sectionAnalysis ?r)" for s
  proof -
    from that obtain s0 where s0: "s0 \<in> set (sectionAnalysis ?st)"
      and eq: "name s = name s0" "section_issues s = section_issues s0"
      unfolding analyzePageElements_def by (blast dest: clamp_scores_section_fields)
    from c s0 have "section_issues s0 = issues_of_section (name s0) (elementIssues ?st)"
      by (simp add: consistent_def list_all_iff)
    with eq iss show ?thesis by simp
  qed
  have mem: "(i \<in> set (section_issues s)) = (name s = capitalizeFirstLetter (issue_section i))"
    if "i \<in> set (elementIssues ?r)" "s \<in> set (sectionAnalysis ?r)" for i s
    using that per[OF that(2)] by (auto simp: issues_of_section_def)
  have "map section_issues (sectionAnalysis ?r)
          = map (\<lambda>n. issues_of_section n (elementIssues ?r)) section_names"
    using consistent_section_issues[OF c] by (simp add: analyzePageElements_def)
  then have "mset (concat (map section_issues (sectionAnalysis ?r)))
          = filter_mset (\<lambda>i. capitalizeFirstLetter (issue_section i) \<in> set section_names)
              (mset (elementIssues ?r))"
    unfolding issues_of_section_def
    by (simp only: mset_concat_filters[OF distinct_section_names])
  then have m: "mset (concat (map section_issues (sectionAnalysis ?r))) = mset (elementIssues ?r)"
    by (simp add: capitalizeFirstLetter_total)
  have five: "map capitalizeFirstLetter [''header'', ''navigation'', ''content'', ''sidebar'', ''footer'']
        = [''Header'', ''Navigation'', ''Main Content'', ''Sidebar'', ''Footer'']"
    by (simp add: capitalizeFirstLetter_def)
  have other: "\<forall>x. x \<notin> {''header'', ''navigation'', ''content'', ''sidebar'', ''footer''}
          \<longrightarrow> capitalizeFirstLetter x = ''General''"
    by (simp add: capitalizeFirstLetter_def)
  show ?thesis
  proof (intro conjI)
    show "map name (sectionAnalysis ?r) = section_names"
      by (rule n)
    show "map capitalizeFirstLetter [''header'', ''navigation'', ''content'', ''sidebar'', ''footer'']
        = [''Header'', ''Navigation'', ''Main Content'', ''Sidebar'', ''Footer'']"
      by (rule five)
    show "\<forall>x. x \<notin> {''header'', ''navigation'', ''content'', ''sidebar'', ''footer''}
          \<longrightarrow> capitalizeFirstLetter x = ''General''"
      by (rule other)
    show "\<forall>i. capitalizeFirstLetter (issue_section i) \<in> set section_names"
      by (rule allI) (rule capitalizeFirstLetter_total)
    show "\<forall>s \<in> set (sectionAnalysis ?r).
         section_issues s = issues_of_section (name s) (elementIssues ?r)"
      by (rule ballI) (rule per)
    show "\<forall>i \<in> set (elementIssues ?r). \<forall>s \<in> set (sectionAnalysis ?r).
           (i \<in> set (section_issues s)) = (name s = capitalizeFirstLetter (issue_section i))"
      by (intro ballI) (rule mem)
    show "mset (concat (map section_issues (sectionAnalysis ?r))) = mset (elementIssues ?r)"
      by (rule m)
  qed
qed

theorem section_lists_partition_issues_witness:
  "map (map issue \<circ> section_issues) (sectionAnalysis (analyzePageElements doc_landmarks []))
     = [[''Title is too short'', ''Missing meta description'', ''Image missing alt text''],
        [''Non-descriptive link text''],
        [''Multiple H1 headings'', ''Skipped heading level (H1 to H4)''],
        [],
        [''Image missing alt text'', ''Link missing text content''],
        [''Image missing alt text'']]
   \<and> mset (concat (map section_issues (sectionAnalysis (analyzePageElements doc_landmarks []))))
        = mset (elementIssues (analyzePageElements doc_landmarks []))"
proof -
  have "map (map issue \<circ> section_issues) (sectionAnalysis (analyzePageElements doc_landmarks []))
     = [[''Title is too short'', ''Missing meta description'', ''Image missing alt text''],
        [''Non-descriptive link text''],
        [''Multiple H1 headings'', ''Skipped heading level (H1 to H4)''],
        [],
        [''Image missing alt text'', ''Link missing text content''],
        [''Image missing alt text'']]"
    by code_simp
  then show ?thesis
    using section_lists_partition_issues[of doc_landmarks "[]"] by blast
qed

subsection \<open>The empty document\<close>

text \<open>
  A document with no element at all gives the default extraction and the five
  "missing" issues, whatever the reference URL: with no link, the URL is not parsed.
\<close>

lemma all_elements_empty: "all_elements (Document q []) = []"
  by (simp add: all_elements_def)

lemma querySelectorAll_empty: "querySelectorAll (Document q []) sel = []"
  by (simp add: querySelectorAll_def all_elements_empty)

lemma querySelector_empty: "querySelector (Document q []) sel = None"
  by (simp add: querySelector_def querySelectorAll_empty)

lemma analyzeHtmlContent_empty_document:
  "\<exists>r. analyzeHtmlContent hostname_of (Document q []) u = Inr r
     \<and> title r = [] \<and> description r = [] \<and> page_keywords r = [] \<and> ogTags r = []
     \<and> headings r = \<lparr> h1 = 0, h2 = 0, h3 = 0, h4 = 0, h5 = 0, h6 = 0, heading_structure = [] \<rparr>
     \<and> images r = \<lparr> images_total = 0, withAlt = 0, withoutAlt = 0, withEmptyAlt = 0 \<rparr>
     \<and> links r = \<lparr> links_total = 0, internal = 0, external = 0 \<rparr>
     \<and> findings (issues r)
         = [(high, ''Missing page title''), (high, ''Missing meta description''),
            (high, ''Missing H1 heading''), (high, ''Missing viewport meta tag''),
            (medium, ''Missing structured data'')]"
proof -
  have f: "findings (fst (run_checks (Document q []))) = List.map_filter (\<lambda>x. x) (checks_on_extraction (Document q []))"
    using run_checks_numbered[of "Document q []"] by (simp add: numbered_def)
  have s: "List.map_filter (\<lambda>x. x) (checks_on_extraction (Document q []))
         = [(high, ''Missing page title''), (high, ''Missing meta description''),
            (high, ''Missing H1 heading''), (high, ''Missing viewport meta tag''),
            (medium, ''Missing structured data'')]"
    by code_simp
  show ?thesis
    by (simp add: analyzeHtmlContent_def Let_def querySelectorAll_empty querySelector_empty
          extract_title_def content_of_def extract_keywords_def extract_ogTags_def
          extract_headings_def extract_images_def f s trim_Nil)
qed

lemma analyzePageElements_empty_document:
  "totalElements (analyzePageElements (Document q []) u) = 2
   \<and> map issue (elementIssues (analyzePageElements (Document q []) u))
       = [''Missing page title'', ''Missing meta description'', ''Missing H1 heading'']
   \<and> map score (sectionAnalysis (analyzePageElements (Document q []) u)) = [50, 100, 80, 100, 100, 100]"
  by (simp add: analyzePageElements_def run_element_checks_def Let_def querySelectorAll_empty
        querySelector_empty check_title_element_def check_meta_description_element_def
        check_images_elements_def check_headings_elements_def check_links_elements_def
        check_paragraphs_elements_def initial_result_def initial_sectionAnalysis_def
        report_def count_one_def add_total_def title_issue_def meta_issue_def missing_h1_issue_def
        clamp_scores_def clamp_score_def)

subsection \<open>The claims on the document analyzer\<close>

text \<open>
  Claim C1, where the code departs from it. The claim is that the analyzers return
  a result for every document and every reference URL string. The document analyzer
  does not: with a reference URL that is no absolute URL, such as the file name
  \<open>index.html\<close>, the first link whose \<open>href\<close> starts with neither \<open>#\<close> nor \<open>/\<close>
  makes the URL constructor throw, and the analyzer with it.
\<close>

theorem analyzeHtmlContent_throws_on_file_name:
  "analyzeHtmlContent simple_hostname doc_links ''index.html'' = Inl TypeError_Invalid_URL"
  by code_simp

text \<open>
  Claim C2. Where the document analyzer returns, its issues are the findings of the
  nine checks of the specification, in the specification's order: title, meta
  description, H1 count, H2 without H1, H3 without H2, images missing alt, links
  without text, viewport, structured data. Each check looks at what the
  specification says it looks at (\<open>spec_checks\<close>) and gives at most one issue, with
  its severity, title and strict thresholds; the checks do not depend on one
  another; and the identifiers of the issues are 1, 2, ... in that order.
\<close>

theorem nine_checks_in_order:
  assumes "analyzeHtmlContent hostname_of doc u = Inr r"
  shows "findings (issues r) = List.map_filter (\<lambda>x. x) (spec_checks doc)
         \<and> length (spec_checks doc) = 9
         \<and> map issue_id (issues r) = [1 ..< Suc (length (issues r))]"
proof -
  have "numbered (run_checks doc) (List.map_filter (\<lambda>x. x) (spec_checks doc))"
    using run_checks_numbered[of doc] by (simp only: checks_on_extraction_spec)
  then show ?thesis
    using analyzeHtmlContent_issues[OF assms] by (simp add: numbered_def spec_checks_def)
qed

theorem nine_checks_in_order_witness:
  "findings (issues (projr (analyzeHtmlContent simple_hostname doc_landmarks [])))
     = [(medium, ''Title too short''), (high, ''Missing meta description''),
        (medium, ''Multiple H1 headings''), (medium, ''Images missing alt text''),
        (medium, ''Links without text''), (high, ''Missing viewport meta tag''),
        (medium, ''Missing structured data'')]
   \<and> map issue_id (issues (projr (analyzeHtmlContent simple_hostname doc_landmarks [])))
     = [1, 2, 3, 4, 5, 6, 7]"
proof -
  obtain r where r: "analyzeHtmlContent simple_hostname doc_landmarks [] = Inr r"
    using analyzeHtmlContent_returns[of "[]" simple_hostname doc_landmarks] by blast
  have s: "List.map_filter (\<lambda>x. x) (spec_checks doc_landmarks)
     = [(medium, ''Title too short''), (high, ''Missing meta description''),
        (medium, ''Multiple H1 headings''), (medium, ''Images missing alt text''),
        (medium, ''Links without text''), (high, ''Missing viewport meta tag''),
        (medium, ''Missing structured data'')]"
    by code_simp
  from nine_checks_in_order[OF r]
  have f: "findings (issues r) = List.map_filter (\<lambda>x. x) (spec_checks doc_landmarks)"
    and i: "map issue_id (issues r) = [1 ..< Suc (length (issues r))]"
    by simp_all
  have "length (issues r) = 7"
    using arg_cong[OF f, of length] unfolding s findings_def by simp
  with i have "map issue_id (issues r) = [1, 2, 3, 4, 5, 6, 7]"
    by (simp add: upt_rec)
  with f show ?thesis
    unfolding s by (simp add: r)
qed

text \<open>
  Claim C4, as amended. Where the document analyzer returns, \<open>total\<close> counts the
  links with an \<open>href\<close>, \<open>internal\<close> those whose \<open>href\<close> starts with \<open>#\<close> or \<open>/\<close>
  or contains the host name of the reference URL given, and \<open>external\<close> those that
  start with \<open>http\<close> and are not internal. A link that is in neither class (a
  relative path, for one) is counted in \<open>total\<close> only, so \<open>internal\<close> plus
  \<open>external\<close> plus the number of these links is \<open>total\<close>. The claim as stated
  counts a relative path as internal: on the page of five links with no reference
  URL, \<open>internal\<close> is 2 and \<open>external\<close> is 2 of 5.
\<close>

theorem link_partition:
  assumes "analyzeHtmlContent hostname_of doc u = Inr r"
  shows "links_total (links r) = length (querySelectorAll doc sel_a_href)
     \<and> internal (links r)
         = length (filter (\<lambda>l. spec_internal hostname_of u (href_of l)) (querySelectorAll doc sel_a_href))
     \<and> external (links r)
         = length (filter (\<lambda>l. spec_external hostname_of u (href_of l)) (querySelectorAll doc sel_a_href))
     \<and> internal (links r) + external (links r)
         + length (filter (\<lambda>l. \<not> spec_internal hostname_of u (href_of l)
                               \<and> \<not> startsWith (href_of l) ''http'')
                     (querySelectorAll doc sel_a_href))
         = links_total (links r)"
proof -
  let ?ls = "querySelectorAll doc sel_a_href"
  from assms obtain i e where c: "count_links hostname_of u ?ls (0, 0) = Inr (i, e)"
    and r: "links r = \<lparr> links_total = length ?ls, internal = i, external = e \<rparr>"
    by (auto simp: analyzeHtmlContent_def Let_def split: sum.splits)
  from count_links_spec[OF c]
  have i: "i = length (filter (\<lambda>l. spec_internal hostname_of u (href_of l)) ?ls)"
    and e: "e = length (filter (\<lambda>l. spec_external hostname_of u (href_of l)) ?ls)"
    by simp_all
  have "length (filter (\<lambda>l. spec_internal hostname_of u (href_of l)) ?ls)
      + length (filter (\<lambda>l. startsWith (href_of l) ''http'' \<and> \<not> spec_internal hostname_of u (href_of l)) ?ls)
      + length (filter (\<lambda>l. \<not> spec_internal hostname_of u (href_of l) \<and> \<not> startsWith (href_of l) ''http'') ?ls)
      = length ?ls"
    by (rule length_filter_three)
  then show ?thesis
    by (simp add: r i e spec_external_def)
qed

theorem link_partition_witness:
  "links (projr (analyzeHtmlContent simple_hostname doc_links ''https://example.com/''))
     = \<lparr> links_total = 5, internal = 3, external = 1 \<rparr>"
proof -
  have h: "''https://example.com/'' = [] \<or> simple_hostname ''https://example.com/'' \<noteq> None"
    by code_simp
  obtain r where r: "analyzeHtmlContent simple_hostname doc_links ''https://example.com/'' = Inr r"
    using analyzeHtmlContent_returns[of _ simple_hostname, OF h] by blast
  have 1: "length (querySelectorAll doc_links sel_a_href) = 5"
    by code_simp
  have 2: "length (filter (\<lambda>l. spec_internal simple_hostname ''https://example.com/'' (href_of l))
              (querySelectorAll doc_links sel_a_href)) = 3"
    by code_simp
  have 3: "length (filter (\<lambda>l. spec_external simple_hostname ''https://example.com/'' (href_of l))
              (querySelectorAll doc_links sel_a_href)) = 1"
    by code_simp
  show ?thesis
    using link_partition[OF r] by (simp add: r 1 2 3)
qed

theorem relative_link_counterexample:
  "map_sum id links (analyzeHtmlContent simple_hostname doc_links [])
     = Inr \<lparr> links_total = 5, internal = 2, external = 2 \<rparr>
   \<and> map href_of (querySelectorAll doc_links sel_a_href)
     = [''#top'', ''/about'', ''https://other.org/'', ''page.html'', ''https://example.com/blog'']"
  by code_simp

text \<open>
  Claim C6. For a document with no title element, no meta description, one \<open>h1\<close>,
  one image and that without an \<open>alt\<close> attribute, and a viewport tag (and, as in
  the scenario, no \<open>h3\<close> without an \<open>h2\<close>, no link without text and no
  structured data), the document analyzer, where it returns, reports exactly: 1 the
  missing title (high), 2 the missing meta description (high), 3 the images missing
  alt text (medium), 4 the missing structured data (medium); no issue on the
  viewport and none on the \<open>h1\<close>.
\<close>

theorem scenario_issues:
  assumes "querySelector doc (sel_tag ''title'') = None"
    and "querySelector doc (sel_meta_name ''description'') = None"
    and "length (querySelectorAll doc (sel_tag ''h1'')) = 1"
    and "querySelectorAll doc (sel_tag ''img'') = [img]"
    and "\<not> hasAttribute img ''alt''"
    and "querySelector doc (sel_meta_name ''viewport'') \<noteq> None"
    and "querySelectorAll doc (sel_tag ''h3'') = [] \<or> querySelectorAll doc (sel_tag ''h2'') \<noteq> []"
    and "linksWithoutText (querySelectorAll doc sel_a_href) = 0"
    and "\<not> hasStructuredData doc"
    and "analyzeHtmlContent hostname_of doc u = Inr r"
  shows "map (\<lambda>i. (issue_id i, severity i, issue_title i)) (issues r)
          = [(1, high, ''Missing page title''), (2, high, ''Missing meta description''),
             (3, medium, ''Images missing alt text''), (4, medium, ''Missing structured data'')]"
proof -
  have t: "extract_title doc = []"
    using assms(1) by (simp add: extract_title_def)
  have d: "content_of doc (sel_meta_name ''description'') = []"
    using assms(2) by (simp add: content_of_def)
  have w: "withoutAlt (extract_images doc) = 1" "images_total (extract_images doc) = 1"
    using assms(4,5) by (simp_all add: withoutAlt_count) (simp add: extract_images_def Let_def)
  have s: "checks_on_extraction doc
      = [Some (high, ''Missing page title''), Some (high, ''Missing meta description''),
         None, None, None, Some (medium, ''Images missing alt text''), None, None,
         Some (medium, ''Missing structured data'')]"
    using assms(3,6,7,8,9)
    by (auto simp: checks_on_extraction_def t d w spec_check_title_def spec_check_meta_description_def
          spec_check_h1_count_def spec_check_h2_without_h1_def spec_check_h3_without_h2_def
          spec_check_images_alt_def spec_check_link_text_def spec_check_viewport_def
          spec_check_structured_data_def)
  have n: "numbered (run_checks doc)
      [(high, ''Missing page title''), (high, ''Missing meta description''),
       (medium, ''Images missing alt text''), (medium, ''Missing structured data'')]"
    using run_checks_numbered[of doc] by (simp add: s List.map_filter_simps)
  have i: "issues r = fst (run_checks doc)"
    by (rule analyzeHtmlContent_issues[OF assms(10)])
  from n have f: "map (\<lambda>i. (severity i, issue_title i)) (issues r)
      = [(high, ''Missing page title''), (high, ''Missing meta description''),
         (medium, ''Images missing alt text''), (medium, ''Missing structured data'')]"
    and ids: "map issue_id (issues r) = [1 ..< Suc (length (issues r))]"
    by (simp_all add: numbered_def findings_def i)
  have l: "length (issues r) = 4"
    using arg_cong[OF f, of length] by simp
  from ids have ids': "map issue_id (issues r) = [1, 2, 3, 4]"
    by (simp add: l upt_rec)
  have "map (\<lambda>i. (issue_id i, severity i, issue_title i)) (issues r)
      = zip (map issue_id (issues r)) (map (\<lambda>i. (severity i, issue_title i)) (issues r))"
    by (simp add: zip_map_map zip_same_conv_map)
  then show ?thesis
    unfolding f ids' by simp
qed

theorem scenario_issues_witness:
  "map (\<lambda>i. (issue_id i, severity i, issue_title i))
     (issues (projr (analyzeHtmlContent simple_hostname doc_scenario [])))
   = [(1, high, ''Missing page title''), (2, high, ''Missing meta description''),
      (3, medium, ''Images missing alt text''), (4, medium, ''Missing structured data'')]"
proof -
  obtain r where r: "analyzeHtmlContent simple_hostname doc_scenario [] = Inr r"
    using analyzeHtmlContent_returns[of "[]" simple_hostname doc_scenario] by blast
  have 1: "querySelector doc_scenario (sel_tag ''title'') = None"
    by code_simp
  have 2: "querySelector doc_scenario (sel_meta_name ''description'') = None"
    by code_simp
  have 3: "length (querySelectorAll doc_scenario (sel_tag ''h1'')) = 1"
    by code_simp
  have 4: "querySelectorAll doc_scenario (sel_tag ''img'')
             = [([0, 1, 1], Element ''img'' [(''src'', ''photo.png'')] [])]"
    by code_simp
  have 5: "\<not> hasAttribute ([0, 1, 1], Element ''img'' [(''src'', ''photo.png'')] []) ''alt''"
    by code_simp
  have 6: "querySelector doc_scenario (sel_meta_name ''viewport'') \<noteq> None"
    by code_simp
  have 7: "querySelectorAll doc_scenario (sel_tag ''h3'') = []
             \<or> querySelectorAll doc_scenario (sel_tag ''h2'') \<noteq> []"
    by code_simp
  have 8: "linksWithoutText (querySelectorAll doc_scenario sel_a_href) = 0"
    by code_simp
  have 9: "\<not> hasStructuredData doc_scenario"
    by code_simp
  show ?thesis
    using scenario_issues[OF 1 2 3 4 5 6 7 8 9 r] by (simp add: r)
qed

end
